theory Spec2Isabelle
  imports Complex_Main "HOL-Library.Sublist"
begin

section \<open>JavaScript values as the normalizers see them\<close>

text \<open>
  The raw records come out of \<^verbatim>\<open>response.json()\<close> and are typed \<^verbatim>\<open>Record<string, unknown>\<close>:
  every \<^verbatim>\<open>as\<close> cast of the source is unchecked, so a field holds whatever JSON value the
  provider sent.  A number is a double: \<open>Fin r\<close> is a finite one (held exactly; the rounding
  of IEEE arithmetic and the sign of zero are not represented), \<open>NaN\<close>, \<open>PosInf\<close>, \<open>NegInf\<close> are
  the three others.  A string is a list of code units below 256.  An object is the list of its
  own properties (a lookup finds the first binding of a key).
\<close>

datatype jsnum = NaN | PosInf | NegInf | Fin rat

datatype jsval =
    JUndefined
  | JNull
  | JBool bool
  | JNum jsnum
  | JStr string
  | JArr "jsval list"
  | JObj "(string \<times> jsval) list"

text \<open>What a \<^verbatim>\<open>throw\<close> carries: a \<^verbatim>\<open>TypeError\<close> of the runtime, or the
  \<^verbatim>\<open>Error('Model missing required id field')\<close> of \<^verbatim>\<open>extractBaseFields\<close>.\<close>

datatype js_error = TypeError | MissingId

text \<open>Truthiness (\<^verbatim>\<open>if (v)\<close>, \<^verbatim>\<open>a || b\<close>, \<^verbatim>\<open>!v\<close>).\<close>

fun truthy :: "jsval \<Rightarrow> bool" where
  "truthy JUndefined = False"
| "truthy JNull = False"
| "truthy (JBool b) = b"
| "truthy (JNum n) = (n \<noteq> NaN \<and> n \<noteq> Fin 0)"
| "truthy (JStr s) = (s \<noteq> [])"
| "truthy (JArr xs) = True"
| "truthy (JObj kvs) = True"

text \<open>\<^verbatim>\<open>a || b\<close> and \<^verbatim>\<open>a ?? b\<close> on values that are already computed.\<close>

definition js_or :: "jsval \<Rightarrow> jsval \<Rightarrow> jsval" where
  "js_or a b = (if truthy a then a else b)"

definition nullish :: "jsval \<Rightarrow> bool" where
  "nullish v = (v = JUndefined \<or> v = JNull)"

definition js_coalesce :: "jsval \<Rightarrow> jsval \<Rightarrow> jsval" where
  "js_coalesce a b = (if nullish a then b else a)"

text \<open>
  Property read \<^verbatim>\<open>v.k\<close> and \<^verbatim>\<open>v?.k\<close>.  The keys the source reads are not defined on any
  prototype, so the read of a primitive or of an array gives \<^verbatim>\<open>undefined\<close>; every read
  without \<^verbatim>\<open>?.\<close> in the source is of a value already tested truthy, so the \<^verbatim>\<open>TypeError\<close> of
  reading \<^verbatim>\<open>null\<close> or \<^verbatim>\<open>undefined\<close> cannot happen there.
\<close>

fun getv :: "jsval \<Rightarrow> string \<Rightarrow> jsval" where
  "getv (JObj kvs) k = (case map_of kvs k of Some v \<Rightarrow> v | None \<Rightarrow> JUndefined)"
| "getv v k = JUndefined"

subsection \<open>\<^verbatim>\<open>Number(v)\<close>\<close>

fun index_of :: "'a \<Rightarrow> 'a list \<Rightarrow> nat option" where
  "index_of x [] = None"
| "index_of x (y # ys) = (if x = y then Some 0 else map_option Suc (index_of x ys))"

definition ascii_lower :: "char \<Rightarrow> char" where
  "ascii_lower c =
     (case index_of c ''ABCDEFGHIJKLMNOPQRSTUVWXYZ'' of
        Some i \<Rightarrow> ''abcdefghijklmnopqrstuvwxyz'' ! i
      | None \<Rightarrow> c)"

definition digit_in :: "nat \<Rightarrow> char \<Rightarrow> nat option" where
  "digit_in b c =
     (case index_of (ascii_lower c) ''0123456789abcdef'' of
        Some d \<Rightarrow> if d < b then Some d else None
      | None \<Rightarrow> None)"

definition digits_in :: "nat \<Rightarrow> string \<Rightarrow> nat option" where
  "digits_in b s =
     (if s = [] then None
      else map_option (foldl (\<lambda>a d. b * a + d) 0) (those (map (digit_in b) s)))"

definition StrWhiteSpaceChar :: "char \<Rightarrow> bool" where
  "StrWhiteSpaceChar c \<longleftrightarrow>
     c \<in> set [CHR 0x09, CHR 0x0A, CHR 0x0B, CHR 0x0C, CHR 0x0D, CHR 0x20, CHR 0xA0]"

definition trim_ws :: "string \<Rightarrow> string" where
  "trim_ws s = rev (dropWhile StrWhiteSpaceChar (rev (dropWhile StrWhiteSpaceChar s)))"

text \<open>A mathematical value becomes a double: beyond the largest finite double it is an
  infinity.\<close>

definition to_double :: "rat \<Rightarrow> jsnum" where
  "to_double r =
     (if 2 ^ 1024 - 2 ^ 970 \<le> r then PosInf
      else if r \<le> - (2 ^ 1024 - 2 ^ 970) then NegInf
      else Fin r)"

fun num_neg :: "jsnum \<Rightarrow> jsnum" where
  "num_neg NaN = NaN"
| "num_neg PosInf = NegInf"
| "num_neg NegInf = PosInf"
| "num_neg (Fin r) = Fin (- r)"

definition SignedInteger :: "string \<Rightarrow> int option" where
  "SignedInteger s =
     (case s of
        c # ds \<Rightarrow>
          if c = CHR ''+'' then map_option int (digits_in 10 ds)
          else if c = CHR ''-'' then map_option (\<lambda>n. - int n) (digits_in 10 ds)
          else map_option int (digits_in 10 s)
      | [] \<Rightarrow> None)"

definition digits_or_none :: "string \<Rightarrow> nat option" where
  "digits_or_none s = (if s = [] then Some 0 else digits_in 10 s)"

text \<open>\<^verbatim>\<open>StrUnsignedDecimalLiteral\<close>: \<^verbatim>\<open>Infinity\<close>, or digits with an optional fraction and an
  optional exponent (\<^verbatim>\<open>12\<close>, \<^verbatim>\<open>12.\<close>, \<^verbatim>\<open>12.5\<close>, \<^verbatim>\<open>.5\<close>, each with \<^verbatim>\<open>e-3\<close>).\<close>

definition StrUnsignedDecimalLiteral :: "string \<Rightarrow> jsnum" where
  "StrUnsignedDecimalLiteral s =
     (if s = ''Infinity'' then PosInf
      else
        let is_e = (\<lambda>c. c = CHR ''e'' \<or> c = CHR ''E'');
            mant = takeWhile (\<lambda>c. \<not> is_e c) s;
            expo = dropWhile (\<lambda>c. \<not> is_e c) s;
            ip = takeWhile (\<lambda>c. c \<noteq> CHR ''.'') mant;
            fp = dropWhile (\<lambda>c. c \<noteq> CHR ''.'') mant;
            e = (if expo = [] then Some 0 else SignedInteger (tl expo));
            m = (if fp = [] then map_option rat_of_nat (digits_in 10 ip)
                 else if ip = [] \<and> tl fp = [] then None
                 else
                   (case (digits_or_none ip, digits_or_none (tl fp)) of
                      (Some a, Some b) \<Rightarrow> Some (rat_of_nat a + rat_of_nat b / 10 ^ length (tl fp))
                    | _ \<Rightarrow> None))
        in (case (m, e) of
              (Some v, Some k) \<Rightarrow>
                to_double (if 0 \<le> k then v * 10 ^ nat k else v / 10 ^ nat (- k))
            | _ \<Rightarrow> NaN))"

text \<open>\<^verbatim>\<open>StringToNumber\<close>: white space is trimmed, the empty string is 0, a literal that does
  not parse is \<^verbatim>\<open>NaN\<close>.  A sign is allowed before a decimal literal only.\<close>

definition StringToNumber :: "string \<Rightarrow> jsnum" where
  "StringToNumber s =
     (let t = trim_ws s;
          radix = (\<lambda>b ds. case digits_in b ds of Some n \<Rightarrow> to_double (rat_of_nat n) | None \<Rightarrow> NaN)
      in case t of
           [] \<Rightarrow> Fin 0
         | [c] \<Rightarrow> StrUnsignedDecimalLiteral t
         | c # d # ds \<Rightarrow>
             if c = CHR ''0'' \<and> ascii_lower d = CHR ''x'' then radix 16 ds
             else if c = CHR ''0'' \<and> ascii_lower d = CHR ''o'' then radix 8 ds
             else if c = CHR ''0'' \<and> ascii_lower d = CHR ''b'' then radix 2 ds
             else if c = CHR ''+'' then StrUnsignedDecimalLiteral (d # ds)
             else if c = CHR ''-'' then num_neg (StrUnsignedDecimalLiteral (d # ds))
             else StrUnsignedDecimalLiteral t)"

text \<open>
  \<^verbatim>\<open>ToPrimitive\<close> of an object parsed from JSON: an own property \<^verbatim>\<open>toString\<close> is never
  callable and hides \<^verbatim>\<open>Object.prototype.toString\<close>, the inherited \<^verbatim>\<open>valueOf\<close> returns the
  object itself (and an own one is not callable), so the conversion throws a \<^verbatim>\<open>TypeError\<close>;
  without it the object is the string \<^verbatim>\<open>[object Object]\<close>.  An array is the join of its
  elements, which converts each of them to a string.
\<close>

fun toString_throws :: "jsval \<Rightarrow> bool" where
  "toString_throws (JObj kvs) = (map_of kvs ''toString'' \<noteq> None)"
| "toString_throws (JArr xs) = list_ex toString_throws xs"
| "toString_throws v = False"

text \<open>
  \<open>join_num v\<close> is \<^verbatim>\<open>StringToNumber(String(v))\<close> for \<open>v\<close> an array or the only element of one:
  \<^verbatim>\<open>null\<close> and \<^verbatim>\<open>undefined\<close> join as the empty string, a number prints as a string that reads
  back as the same number, two or more elements put a comma into the string, and neither a
  comma, \<^verbatim>\<open>true\<close>, \<^verbatim>\<open>false\<close> nor \<^verbatim>\<open>[object Object]\<close> is a numeric literal.
\<close>

fun join_num :: "jsval \<Rightarrow> jsnum" where
  "join_num JUndefined = Fin 0"
| "join_num JNull = Fin 0"
| "join_num (JBool b) = NaN"
| "join_num (JNum n) = n"
| "join_num (JStr s) = StringToNumber s"
| "join_num (JObj kvs) = NaN"
| "join_num (JArr []) = Fin 0"
| "join_num (JArr [x]) = join_num x"
| "join_num (JArr (x # y # zs)) = NaN"

fun ToNumber :: "jsval \<Rightarrow> js_error + jsnum" where
  "ToNumber JUndefined = Inr NaN"
| "ToNumber JNull = Inr (Fin 0)"
| "ToNumber (JBool b) = Inr (Fin (if b then 1 else 0))"
| "ToNumber (JNum n) = Inr n"
| "ToNumber (JStr s) = Inr (StringToNumber s)"
| "ToNumber (JObj kvs) = (if toString_throws (JObj kvs) then Inl TypeError else Inr NaN)"
| "ToNumber (JArr xs) = (if toString_throws (JArr xs) then Inl TypeError else Inr (join_num (JArr xs)))"

subsection \<open>\<^verbatim>\<open>toNum\<close> (normalizers/base.ts)\<close>

text \<open>
  \<^verbatim>\<open>if (v === null || v === undefined || v === '') return undefined\<close>
  \<^verbatim>\<open>const n = Number(v); return Number.isNaN(n) ? undefined : n\<close>
\<close>

definition toNum :: "jsval \<Rightarrow> js_error + jsnum option" where
  "toNum v =
     (if v = JNull \<or> v = JUndefined \<or> v = JStr [] then Inr None
      else (case ToNumber v of
              Inl e \<Rightarrow> Inl e
            | Inr n \<Rightarrow> Inr (if n = NaN then None else Some n)))"


subsection \<open>Objects under construction and exceptions in sequence\<close>

text \<open>\<open>bindE\<close> runs the next step unless the first one threw.\<close>

definition bindE :: "'e + 'a \<Rightarrow> ('a \<Rightarrow> 'e + 'b) \<Rightarrow> 'e + 'b" where
  "bindE m f = (case m of Inl e \<Rightarrow> Inl e | Inr x \<Rightarrow> f x)"

text \<open>Defining the own property \<open>k\<close>: an existing one keeps its place and takes the value,
  a new one goes last.\<close>

fun set_prop :: "string \<Rightarrow> jsval \<Rightarrow> (string \<times> jsval) list \<Rightarrow> (string \<times> jsval) list" where
  "set_prop k v [] = [(k, v)]"
| "set_prop k v ((k', v') # ps) = (if k = k' then (k, v) # ps else (k', v') # set_prop k v ps)"

definition own_props :: "jsval \<Rightarrow> (string \<times> jsval) list" where
  "own_props v = (case v of JObj kvs \<Rightarrow> kvs | _ \<Rightarrow> [])"

text \<open>The object literal \<^verbatim>\<open>{ ...base, k1: v1, k2: v2 }\<close>.\<close>

definition spread_with :: "jsval \<Rightarrow> (string \<times> jsval) list \<Rightarrow> jsval" where
  "spread_with base kvs = JObj (foldl (\<lambda>ps (k, v). set_prop k v ps) (own_props base) kvs)"

text \<open>The object literal \<^verbatim>\<open>{ k1: src.k1, k2: src.k2 }\<close> that copies the named properties.\<close>

definition pick :: "string list \<Rightarrow> jsval \<Rightarrow> jsval" where
  "pick ks src = JObj (map (\<lambda>k. (k, getv src k)) ks)"

definition opt_num :: "jsnum option \<Rightarrow> jsval" where
  "opt_num r = (case r of None \<Rightarrow> JUndefined | Some n \<Rightarrow> JNum n)"

section \<open>Base fields (normalizers/base.ts)\<close>

text \<open>
  \<^verbatim>\<open>id.includes('/') ? id.split('/')[0] : (raw.owned_by as string) || 'Unknown'\<close> for a truthy
  \<open>id\<close>.  A string has both methods, an array has \<^verbatim>\<open>includes\<close> only (so the call of
  \<^verbatim>\<open>split\<close> throws), and no other value has \<^verbatim>\<open>includes\<close>.
\<close>

definition provider_of :: "jsval \<Rightarrow> jsval \<Rightarrow> js_error + jsval" where
  "provider_of raw ident =
     (let fallback = js_or (getv raw ''owned_by'') (JStr ''Unknown'')
      in case ident of
           JStr s \<Rightarrow>
             if CHR ''/'' \<in> set s then Inr (JStr (takeWhile (\<lambda>c. c \<noteq> CHR ''/'') s))
             else Inr fallback
         | JArr xs \<Rightarrow> if JStr ''/'' \<in> set xs then Inl TypeError else Inr fallback
         | _ \<Rightarrow> Inl TypeError)"

text \<open>\<open>clock\<close> is \<^verbatim>\<open>Date.now()\<close>, in milliseconds.\<close>

definition extractBaseFields :: "int \<Rightarrow> jsval \<Rightarrow> js_error + jsval" where
  "extractBaseFields clock raw =
     (let spec = getv raw ''model_spec'';
          ident = js_or (js_or (getv raw ''id'') (getv raw ''model_id'')) (JStr [])
      in if \<not> truthy ident then Inl MissingId
         else
           bindE (provider_of raw ident) (\<lambda>provider.
           bindE (toNum (getv raw ''created'')) (\<lambda>created.
             Inr (JObj
               [(''id'', ident),
                (''name'', js_or (js_or (getv spec ''name'') (getv raw ''name'')) ident),
                (''provider'', provider),
                (''created'',
                   (case created of Some n \<Rightarrow> JNum n | None \<Rightarrow> JNum (Fin (of_int (clock div 1000))))),
                (''description'',
                   js_or (js_or (getv spec ''description'') (getv raw ''description'')) JUndefined),
                (''betaModel'',
                   js_coalesce (js_coalesce (getv spec ''betaModel'') (getv raw ''betaModel'')) JUndefined),
                (''privacy'',
                   js_coalesce (js_coalesce (getv spec ''privacy'') (getv raw ''privacy'')) JUndefined),
                (''offline'',
                   js_coalesce (js_coalesce (getv spec ''offline'') (getv raw ''offline'')) JUndefined),
                (''modelSource'',
                   js_coalesce (js_coalesce (getv spec ''modelSource'') (getv raw ''modelSource'')) JUndefined),
                (''traits'',
                   js_coalesce (js_coalesce (getv spec ''traits'') (getv raw ''traits'')) JUndefined),
                (''deprecation'', js_coalesce (getv spec ''deprecation'') JUndefined),
                (''is_favorite'', JBool False)]))))"

section \<open>The per-variant normalizers\<close>

text \<open>\<^verbatim>\<open>x / 1_000_000\<close> on a number.\<close>

fun per_million :: "jsnum \<Rightarrow> jsnum" where
  "per_million (Fin r) = Fin (r / 1000000)"
| "per_million n = n"

text \<open>\<^verbatim>\<open>x?.usd !== undefined ? x.usd / 1_000_000 : undefined\<close>; the division converts
  \<^verbatim>\<open>x.usd\<close> with \<^verbatim>\<open>ToNumber\<close>.\<close>

definition usd_per_token :: "jsval \<Rightarrow> js_error + jsval" where
  "usd_per_token x =
     (if getv x ''usd'' \<noteq> JUndefined
      then bindE (ToNumber (getv x ''usd'')) (\<lambda>n. Inr (JNum (per_million n)))
      else Inr JUndefined)"

text \<open>\<^verbatim>\<open>a ?? b\<close> where \<open>a\<close> is a call of \<^verbatim>\<open>toNum\<close> and \<open>b\<close> is evaluated only when \<open>a\<close> is
  \<^verbatim>\<open>undefined\<close>.\<close>

definition num_coalesce :: "js_error + jsnum option \<Rightarrow> js_error + jsnum option \<Rightarrow> js_error + jsnum option" where
  "num_coalesce a b = (case a of Inl e \<Rightarrow> Inl e | Inr (Some n) \<Rightarrow> Inr (Some n) | Inr None \<Rightarrow> b)"

text \<open>The \<^verbatim>\<open>if / else if\<close> chain of \<^verbatim>\<open>normalizeTextModel\<close> that fills \<^verbatim>\<open>prompt\<close>,
  \<^verbatim>\<open>completion\<close>, \<^verbatim>\<open>cache_input\<close> and \<^verbatim>\<open>cache_write\<close>, each of them \<^verbatim>\<open>undefined\<close> before it.\<close>

definition text_pricing :: "jsval \<Rightarrow> js_error + jsval" where
  "text_pricing raw =
     (let specPricing = getv (getv raw ''model_spec'') ''pricing'';
          rawPricing = getv raw ''pricing'';
          metaPricing = getv (getv raw ''metadata'') ''pricing'';
          costPricing = getv raw ''cost''
      in if truthy rawPricing then
           bindE (toNum (getv rawPricing ''prompt'')) (\<lambda>prompt.
           bindE (toNum (getv rawPricing ''completion'')) (\<lambda>completion.
           bindE (toNum (getv rawPricing ''cache_input'')) (\<lambda>cache_input.
           bindE (toNum (getv rawPricing ''cache_write'')) (\<lambda>cache_write.
             Inr (JObj [(''prompt'', opt_num prompt), (''completion'', opt_num completion),
                        (''cache_input'', opt_num cache_input), (''cache_write'', opt_num cache_write)])))))
         else if truthy metaPricing then
           bindE (toNum (getv metaPricing ''prompt'')) (\<lambda>prompt.
           bindE (toNum (getv metaPricing ''completion'')) (\<lambda>completion.
             Inr (JObj [(''prompt'', opt_num prompt), (''completion'', opt_num completion),
                        (''cache_input'', JUndefined), (''cache_write'', JUndefined)])))
         else if truthy costPricing then
           bindE (toNum (getv costPricing ''prompt'')) (\<lambda>prompt.
           bindE (toNum (getv costPricing ''completion'')) (\<lambda>completion.
             Inr (JObj [(''prompt'', opt_num prompt), (''completion'', opt_num completion),
                        (''cache_input'', JUndefined), (''cache_write'', JUndefined)])))
         else if truthy specPricing then
           bindE (usd_per_token (getv specPricing ''input'')) (\<lambda>prompt.
           bindE (usd_per_token (getv specPricing ''output'')) (\<lambda>completion.
           bindE (usd_per_token (getv specPricing ''cache_input'')) (\<lambda>cache_input.
           bindE (usd_per_token (getv specPricing ''cache_write'')) (\<lambda>cache_write.
             Inr (JObj [(''prompt'', prompt), (''completion'', completion),
                        (''cache_input'', cache_input), (''cache_write'', cache_write)])))))
         else
           Inr (JObj [(''prompt'', JUndefined), (''completion'', JUndefined),
                      (''cache_input'', JUndefined), (''cache_write'', JUndefined)]))"

definition normalizeTextModel :: "int \<Rightarrow> jsval \<Rightarrow> js_error + jsval" where
  "normalizeTextModel clock raw =
     bindE (extractBaseFields clock raw) (\<lambda>base.
       let spec = getv raw ''model_spec'' in
       bindE (num_coalesce (toNum (getv raw ''context_length''))
               (num_coalesce (toNum (getv raw ''context_window''))
                 (num_coalesce (toNum (getv spec ''availableContextTokens''))
                   (Inr (Some (Fin 0)))))) (\<lambda>context_length.
       bindE (text_pricing raw) (\<lambda>pricing.
         let caps = getv spec ''capabilities'';
             constraints = getv spec ''constraints''
         in Inr (spread_with base
              [(''type'', JStr ''text''),
               (''context_length'', opt_num context_length),
               (''pricing'', pricing),
               (''capabilities'',
                  if truthy caps
                  then pick [''optimizedForCode'', ''supportsVision'', ''supportsReasoning'',
                             ''supportsFunctionCalling'', ''supportsResponseSchema'',
                             ''supportsLogProbs'', ''supportsAudioInput'', ''supportsVideoInput'',
                             ''supportsWebSearch'', ''quantization''] caps
                  else JUndefined),
               (''constraints'',
                  if truthy constraints then pick [''temperature'', ''top_p''] constraints
                  else JUndefined)]))))"

text \<open>Index \<open>i\<close> of an array as a property key.\<close>

fun index_key :: "nat \<Rightarrow> string" where
  "index_key n =
     (if n < 10 then [''0123456789'' ! n]
      else index_key (n div 10) @ [''0123456789'' ! (n mod 10)])"

text \<open>\<^verbatim>\<open>Object.entries\<close> of a value whose \<^verbatim>\<open>typeof\<close> is \<^verbatim>\<open>object\<close>, in the order the properties
  are held.\<close>

definition entries :: "jsval \<Rightarrow> (string \<times> jsval) list" where
  "entries v =
     (case v of
        JObj kvs \<Rightarrow> kvs
      | JArr xs \<Rightarrow> zip (map index_key [0 ..< length xs]) xs
      | _ \<Rightarrow> [])"

definition is_object :: "jsval \<Rightarrow> bool" where
  "is_object v = (case v of JObj kvs \<Rightarrow> True | JArr xs \<Rightarrow> True | _ \<Rightarrow> False)"

text \<open>\<^verbatim>\<open>'usd' in value\<close> for a truthy value whose \<^verbatim>\<open>typeof\<close> is \<^verbatim>\<open>object\<close>.\<close>

definition has_usd :: "jsval \<Rightarrow> bool" where
  "has_usd v = (case v of JObj kvs \<Rightarrow> map_of kvs ''usd'' \<noteq> None | _ \<Rightarrow> False)"

text \<open>
  The loop of \<^verbatim>\<open>normalizeImageModel\<close> over \<^verbatim>\<open>Object.entries(rawResolutions)\<close>.  An assignment
  to the key \<^verbatim>\<open>__proto__\<close> reaches the setter of \<^verbatim>\<open>Object.prototype\<close> and adds no own property.
\<close>

fun resolution_prices :: "(string \<times> jsval) list \<Rightarrow> (string \<times> jsval) list \<Rightarrow> (string \<times> jsval) list" where
  "resolution_prices acc [] = acc"
| "resolution_prices acc ((key, val) # rest) =
     resolution_prices
       (if truthy val \<and> is_object val \<and> has_usd val \<and> key \<noteq> ''__proto__''
        then set_prop key (js_coalesce (getv val ''usd'') (JNum (Fin 0))) acc
        else acc)
       rest"

definition normalizeImageModel :: "int \<Rightarrow> jsval \<Rightarrow> js_error + jsval" where
  "normalizeImageModel clock raw =
     bindE (extractBaseFields clock raw) (\<lambda>base.
       let spec = getv raw ''model_spec'';
           pricing = getv spec ''pricing'';
           constraints = getv spec ''constraints'';
           generation = getv pricing ''generation'';
           upscale = getv pricing ''upscale'';
           rawResolutions = getv pricing ''resolutions'';
           normalizedResolutions =
             (if truthy rawResolutions \<and> is_object rawResolutions
              then JObj (resolution_prices [] (entries rawResolutions))
              else JUndefined)
       in Inr (spread_with base
            [(''type'', JStr ''image''),
             (''pricing'',
                JObj [(''generation'', getv generation ''usd''),
                      (''upscale_2x'', getv (getv upscale ''2x'') ''usd''),
                      (''upscale_4x'', getv (getv upscale ''4x'') ''usd''),
                      (''resolutions'', normalizedResolutions)]),
             (''constraints'',
                if truthy constraints
                then pick [''promptCharacterLimit'', ''steps'', ''widthHeightDivisor'',
                           ''aspectRatios'', ''defaultAspectRatio'', ''resolutions'',
                           ''defaultResolution''] constraints
                else JUndefined),
             (''supportsWebSearch'', js_coalesce (getv spec ''supportsWebSearch'') JUndefined)]))"

definition normalizeVideoModel :: "int \<Rightarrow> jsval \<Rightarrow> js_error + jsval" where
  "normalizeVideoModel clock raw =
     bindE (extractBaseFields clock raw) (\<lambda>base.
       let spec = getv raw ''model_spec'';
           constraints = getv spec ''constraints''
       in Inr (spread_with base
            [(''type'', JStr ''video''),
             (''constraints'',
                if truthy constraints
                then pick [''model_type'', ''aspect_ratios'', ''resolutions'', ''durations'',
                           ''audio'', ''audio_configurable'', ''audio_input'', ''video_input'']
                       constraints
                else JUndefined),
             (''model_sets'',
                js_coalesce (js_coalesce (getv spec ''model_sets'') (getv raw ''model_sets''))
                  JUndefined)]))"

definition normalizeInpaintModel :: "int \<Rightarrow> jsval \<Rightarrow> js_error + jsval" where
  "normalizeInpaintModel clock raw =
     bindE (extractBaseFields clock raw) (\<lambda>base.
       let spec = getv raw ''model_spec'';
           pricing = getv spec ''pricing'';
           constraints = getv spec ''constraints'';
           generation = getv pricing ''generation''
       in Inr (spread_with base
            [(''type'', JStr ''inpaint''),
             (''pricing'', JObj [(''generation'', getv generation ''usd'')]),
             (''constraints'',
                if truthy constraints then pick [''aspectRatios'', ''combineImages''] constraints
                else JUndefined)]))"

definition normalizeEmbeddingModel :: "int \<Rightarrow> jsval \<Rightarrow> js_error + jsval" where
  "normalizeEmbeddingModel clock raw =
     bindE (extractBaseFields clock raw) (\<lambda>base.
       let spec = getv raw ''model_spec'';
           specPricing = getv spec ''pricing''
       in bindE (usd_per_token (getv specPricing ''input'')) (\<lambda>input.
          bindE (usd_per_token (getv specPricing ''output'')) (\<lambda>output.
            Inr (spread_with base
              [(''type'', JStr ''embedding''),
               (''pricing'', JObj [(''input'', input), (''output'', output)])]))))"

definition normalizeTtsModel :: "int \<Rightarrow> jsval \<Rightarrow> js_error + jsval" where
  "normalizeTtsModel clock raw =
     bindE (extractBaseFields clock raw) (\<lambda>base.
       let spec = getv raw ''model_spec'';
           specPricing = getv spec ''pricing''
       in bindE (usd_per_token (getv specPricing ''input'')) (\<lambda>input.
            Inr (spread_with base
              [(''type'', JStr ''tts''),
               (''pricing'', JObj [(''input'', input)]),
               (''voices'', js_coalesce (getv spec ''voices'') JUndefined)])))"

definition normalizeAsrModel :: "int \<Rightarrow> jsval \<Rightarrow> js_error + jsval" where
  "normalizeAsrModel clock raw =
     bindE (extractBaseFields clock raw) (\<lambda>base.
       let spec = getv raw ''model_spec'';
           specPricing = getv spec ''pricing'';
           perAudioSecond = getv specPricing ''per_audio_second''
       in Inr (spread_with base
            [(''type'', JStr ''asr''),
             (''pricing'', JObj [(''per_audio_second'', getv perAudioSecond ''usd'')])]))"

definition normalizeUpscaleModel :: "int \<Rightarrow> jsval \<Rightarrow> js_error + jsval" where
  "normalizeUpscaleModel clock raw =
     bindE (extractBaseFields clock raw) (\<lambda>base.
       let spec = getv raw ''model_spec'';
           pricing = getv spec ''pricing'';
           generation = getv pricing ''generation''
       in Inr (spread_with base
            [(''type'', JStr ''upscale''),
             (''pricing'', JObj [(''generation'', getv generation ''usd'')])]))"


section \<open>Type inference (normalizers/type-inference.ts)\<close>

datatype ModelType = TextT | ImageT | VideoT | InpaintT | EmbeddingT | TtsT | AsrT | UpscaleT

text \<open>
  A rule \<^verbatim>\<open>/\b(w1|w2)\b/i\<close> is held as the list of its alternatives.  Without the \<^verbatim>\<open>u\<close> flag a
  letter of the pattern matches the same ASCII letter in either case and nothing else, and a
  word character is one of \<^verbatim>\<open>[A-Za-z0-9_]\<close>.
\<close>

definition MODEL_ID_TYPE_PATTERNS :: "(string list \<times> ModelType) list" where
  "MODEL_ID_TYPE_PATTERNS =
     [([''embed'', ''embedding''], EmbeddingT),
      ([''dall-e'', ''stable-diffusion'', ''sdxl'', ''midjourney'', ''flux''], ImageT),
      ([''tts''], TtsT),
      ([''whisper'', ''asr''], AsrT),
      ([''sora'', ''video'', ''wan''], VideoT),
      ([''inpaint''], InpaintT),
      ([''upscale'', ''esrgan''], UpscaleT)]"

definition is_word_char :: "char \<Rightarrow> bool" where
  "is_word_char c \<longleftrightarrow>
     c \<in> set ''abcdefghijklmnopqrstuvwxyzABCDEFGHIJKLMNOPQRSTUVWXYZ0123456789_''"

text \<open>\<^verbatim>\<open>\b\<close> between the character before the position and the one after it (\<open>None\<close> at
  either end of the input).\<close>

definition word_boundary :: "char option \<Rightarrow> char option \<Rightarrow> bool" where
  "word_boundary a b =
     ((case a of Some c \<Rightarrow> is_word_char c | None \<Rightarrow> False) \<noteq>
      (case b of Some c \<Rightarrow> is_word_char c | None \<Rightarrow> False))"

definition next_char :: "string \<Rightarrow> char option" where
  "next_char s = (case s of [] \<Rightarrow> None | c # cs \<Rightarrow> Some c)"

text \<open>Matching the literal \<open>w\<close> at the start of the input, ignoring case: what is left of the
  input, and the last character before it.\<close>

fun match_literal :: "string \<Rightarrow> char option \<Rightarrow> string \<Rightarrow> (char option \<times> string) option" where
  "match_literal [] prev s = Some (prev, s)"
| "match_literal (p # ps) prev [] = None"
| "match_literal (p # ps) prev (c # cs) =
     (if ascii_lower p = ascii_lower c then match_literal ps (Some c) cs else None)"

definition match_at :: "string list \<Rightarrow> char option \<Rightarrow> string \<Rightarrow> bool" where
  "match_at alts prev s =
     (word_boundary prev (next_char s) \<and>
      list_ex (\<lambda>w. case match_literal w prev s of
                      Some (prev', rest) \<Rightarrow> word_boundary prev' (next_char rest)
                    | None \<Rightarrow> False) alts)"

text \<open>\<^verbatim>\<open>pattern.test(s)\<close>: a match at the first position that has one.\<close>

fun regex_test :: "string list \<Rightarrow> char option \<Rightarrow> string \<Rightarrow> bool" where
  "regex_test alts prev [] = match_at alts prev []"
| "regex_test alts prev (c # cs) = (match_at alts prev (c # cs) \<or> regex_test alts (Some c) cs)"

fun first_rule :: "(string list \<times> ModelType) list \<Rightarrow> string \<Rightarrow> ModelType option" where
  "first_rule [] ident = None"
| "first_rule ((alts, t) # rules) ident =
     (if regex_test alts None ident then Some t else first_rule rules ident)"

definition inferTypeFromId :: "string \<Rightarrow> ModelType option" where
  "inferTypeFromId ident = first_rule MODEL_ID_TYPE_PATTERNS ident"

section \<open>The dispatching normalizer (normalizers/index.ts)\<close>

text \<open>
  \<^verbatim>\<open>String(v)\<close> for a value whose conversion does not throw (\<open>toString_throws\<close> says when it
  does).  \<open>numberToString\<close> is the runtime's printing of a number.
\<close>

fun join_comma :: "string list \<Rightarrow> string" where
  "join_comma [] = []"
| "join_comma [s] = s"
| "join_comma (s # t # ss) = s @ '','' @ join_comma (t # ss)"

fun to_str :: "(jsnum \<Rightarrow> string) \<Rightarrow> jsval \<Rightarrow> string" where
  "to_str numberToString JUndefined = ''undefined''"
| "to_str numberToString JNull = ''null''"
| "to_str numberToString (JBool b) = (if b then ''true'' else ''false'')"
| "to_str numberToString (JNum n) = numberToString n"
| "to_str numberToString (JStr s) = s"
| "to_str numberToString (JObj kvs) = ''[object Object]''"
| "to_str numberToString (JArr xs) =
     join_comma (map (\<lambda>x. if x = JUndefined \<or> x = JNull then [] else to_str numberToString x) xs)"

definition ToString :: "(jsnum \<Rightarrow> string) \<Rightarrow> jsval \<Rightarrow> js_error + string" where
  "ToString numberToString v =
     (if toString_throws v then Inl TypeError else Inr (to_str numberToString v))"

definition type_name :: "ModelType \<Rightarrow> string" where
  "type_name t =
     (case t of TextT \<Rightarrow> ''text'' | ImageT \<Rightarrow> ''image'' | VideoT \<Rightarrow> ''video''
      | InpaintT \<Rightarrow> ''inpaint'' | EmbeddingT \<Rightarrow> ''embedding'' | TtsT \<Rightarrow> ''tts''
      | AsrT \<Rightarrow> ''asr'' | UpscaleT \<Rightarrow> ''upscale'')"

definition VALID_TYPES :: "ModelType list" where
  "VALID_TYPES = [TextT, ImageT, VideoT, InpaintT, EmbeddingT, TtsT, AsrT, UpscaleT]"

text \<open>\<^verbatim>\<open>rawType && VALID_TYPES.has(rawType) ? rawType as ModelType : undefined\<close>: the set holds
  eight strings, so only a string equal to one of them is a member.\<close>

definition explicit_type :: "jsval \<Rightarrow> ModelType option" where
  "explicit_type rawType =
     (case rawType of
        JStr s \<Rightarrow> if s \<noteq> [] then find (\<lambda>t. type_name t = s) VALID_TYPES else None
      | _ \<Rightarrow> None)"

text \<open>The three tiers: the explicit type, else the heuristic on the id (\<^verbatim>\<open>test\<close> converts
  its argument to a string, which can throw), else \<^verbatim>\<open>'text'\<close>.\<close>

definition resolve_type :: "(jsnum \<Rightarrow> string) \<Rightarrow> jsval \<Rightarrow> js_error + ModelType" where
  "resolve_type numberToString raw =
     (let ident = js_coalesce (js_coalesce (getv raw ''id'') (getv raw ''model_id'')) (JStr []);
          rawType = getv raw ''type''
      in case explicit_type rawType of
           Some t \<Rightarrow> Inr t
         | None \<Rightarrow>
             bindE (ToString numberToString ident) (\<lambda>s.
               Inr (case inferTypeFromId s of Some t \<Rightarrow> t | None \<Rightarrow> TextT)))"

definition defaultModelNormalizer :: "(jsnum \<Rightarrow> string) \<Rightarrow> int \<Rightarrow> jsval \<Rightarrow> js_error + jsval" where
  "defaultModelNormalizer numberToString clock raw =
     bindE (resolve_type numberToString raw) (\<lambda>t.
       case t of
         TextT \<Rightarrow> normalizeTextModel clock raw
       | ImageT \<Rightarrow> normalizeImageModel clock raw
       | VideoT \<Rightarrow> normalizeVideoModel clock raw
       | InpaintT \<Rightarrow> normalizeInpaintModel clock raw
       | EmbeddingT \<Rightarrow> normalizeEmbeddingModel clock raw
       | TtsT \<Rightarrow> normalizeTtsModel clock raw
       | AsrT \<Rightarrow> normalizeAsrModel clock raw
       | UpscaleT \<Rightarrow> normalizeUpscaleModel clock raw)"

definition defaultResponseExtractor :: "jsval \<Rightarrow> jsval list" where
  "defaultResponseExtractor body =
     (case body of
        JArr xs \<Rightarrow> xs
      | JObj kvs \<Rightarrow>
          (case getv body ''data'' of
             JArr xs \<Rightarrow> xs
           | _ \<Rightarrow> (case getv body ''models'' of JArr ys \<Rightarrow> ys | _ \<Rightarrow> []))
      | _ \<Rightarrow> [])"


section \<open>The retrieval hook (hooks/use-models.ts)\<close>

text \<open>
  What the hook can hold in \<^verbatim>\<open>error\<close>: its own three errors, a \<^verbatim>\<open>TypeError\<close> raised inside
  \<^verbatim>\<open>fetchModels\<close>, or whatever an injected function threw or rejected with.
\<close>

datatype 'e hook_error =
    InvalidScheme
  | HttpStatus nat
  | InvalidResponse
  | Raised js_error
  | External 'e

record 'e hook_state =
  allModels_state :: "jsval list"
  loading :: bool
  error :: "'e hook_error option"

record UseModelsProps =
  baseUrl :: "string option"
  apiKey :: "string option"
  type_filter :: "ModelType option"
  queryParams :: "(string \<times> string) list option"

record request =
  url :: string
  headers :: "(string \<times> string) list"

text \<open>\<^verbatim>\<open>/^https?:\/\//i.test(baseUrl)\<close>.\<close>

definition scheme_test :: "string \<Rightarrow> bool" where
  "scheme_test u =
     (case match_literal ''http'' None u of
        None \<Rightarrow> False
      | Some (b, rest) \<Rightarrow>
          (case match_literal ''s'' b rest of
             Some (b', rest') \<Rightarrow> match_literal ''://'' b' rest' \<noteq> None
           | None \<Rightarrow> False)
          \<or> match_literal ''://'' b rest \<noteq> None)"

text \<open>The request of \<^verbatim>\<open>fetchModels\<close>.  \<open>serialize\<close> is \<^verbatim>\<open>new URLSearchParams(params).toString()\<close>.\<close>

definition request_of :: "((string \<times> string) list \<Rightarrow> string) \<Rightarrow> UseModelsProps \<Rightarrow> string \<Rightarrow> request" where
  "request_of serialize props u =
     (let cleanBase = rev (dropWhile (\<lambda>c. c = CHR ''/'') (rev u));
          params = (case queryParams props of None \<Rightarrow> [] | Some ps \<Rightarrow> ps);
          qs = serialize params
      in \<lparr>url = cleanBase @ ''/models'' @ (if qs \<noteq> [] then ''?'' @ qs else []),
          headers = (case apiKey props of
                       Some k \<Rightarrow> if k \<noteq> [] then [(''Authorization'', ''Bearer '' @ k)] else []
                     | None \<Rightarrow> [])\<rparr>)"

text \<open>
  The body of the effect up to the call of the fetch function: the state it sets, and the
  request it hands to the fetch function, if any.
\<close>

definition useModels_effect ::
  "((string \<times> string) list \<Rightarrow> string) \<Rightarrow> UseModelsProps \<Rightarrow> 'e hook_state \<Rightarrow> 'e hook_state \<times> request option" where
  "useModels_effect serialize props st =
     (case baseUrl props of
        None \<Rightarrow> (\<lparr>allModels_state = [], loading = False, error = None\<rparr>, None)
      | Some u \<Rightarrow>
          if u = [] then (\<lparr>allModels_state = [], loading = False, error = None\<rparr>, None)
          else if \<not> scheme_test u
          then (\<lparr>allModels_state = [], loading = False, error = Some InvalidScheme\<rparr>, None)
          else (st\<lparr>loading := True, error := None\<rparr>, Some (request_of serialize props u)))"

text \<open>What the hook returns: \<^verbatim>\<open>allModels\<close> filtered by \<^verbatim>\<open>type\<close>, \<^verbatim>\<open>loading\<close>, \<^verbatim>\<open>error\<close>.\<close>

definition useModels_result :: "UseModelsProps \<Rightarrow> 'e hook_state \<Rightarrow> jsval list \<times> bool \<times> 'e hook_error option" where
  "useModels_result props st =
     ((case type_filter props of
         None \<Rightarrow> allModels_state st
       | Some t \<Rightarrow> filter (\<lambda>m. getv m ''type'' = JStr (type_name t)) (allModels_state st)),
      loading st, error st)"

subsection \<open>Normalizing the batch\<close>

text \<open>
  The \<^verbatim>\<open>for\<close> loop with its \<^verbatim>\<open>try / catch\<close>.  \<open>dev\<close> is \<^verbatim>\<open>process.env.NODE_ENV !== 'production'\<close>.
  A warning is the message and the error handed to \<^verbatim>\<open>console.warn\<close>; the template literal
  converts the id to a string, and that conversion can throw out of the \<^verbatim>\<open>catch\<close> block.
\<close>

definition warning_message :: "string \<Rightarrow> string" where
  "warning_message modelId =
     ''[open-model-selector] Failed to normalize model '' @ [CHR 0x22] @ modelId @ [CHR 0x22] @ '':''"

fun normalize_loop ::
  "(jsnum \<Rightarrow> string) \<Rightarrow> bool \<Rightarrow> (jsval \<Rightarrow> 'e + jsval) \<Rightarrow> jsval list \<Rightarrow>
   jsval list \<Rightarrow> (string \<times> 'e) list \<Rightarrow> js_error + jsval list \<times> (string \<times> 'e) list" where
  "normalize_loop numberToString dev normalizer [] normalized warnings = Inr (normalized, warnings)"
| "normalize_loop numberToString dev normalizer (raw # rest) normalized warnings =
     (case normalizer raw of
        Inr model \<Rightarrow>
          normalize_loop numberToString dev normalizer rest
            (if truthy model \<and> truthy (getv model ''id'') then normalized @ [model] else normalized)
            warnings
      | Inl err \<Rightarrow>
          if dev then
            bindE (ToString numberToString
                    (js_coalesce (js_coalesce (getv raw ''id'') (getv raw ''model_id'')) (JStr ''unknown'')))
              (\<lambda>modelId.
                 normalize_loop numberToString dev normalizer rest normalized
                   (warnings @ [(warning_message modelId, err)]))
          else normalize_loop numberToString dev normalizer rest normalized warnings)"

definition is_record :: "jsval \<Rightarrow> bool" where
  "is_record item = (case item of JObj kvs \<Rightarrow> True | _ \<Rightarrow> False)"

text \<open>From the parsed body to the list handed to \<^verbatim>\<open>setAllModels\<close>, or the error the outer
  \<^verbatim>\<open>catch\<close> receives, with the warnings printed on the way.\<close>

definition normalize_response ::
  "(jsnum \<Rightarrow> string) \<Rightarrow> bool \<Rightarrow> (jsval \<Rightarrow> jsval list) \<Rightarrow> (jsval \<Rightarrow> 'e + jsval) \<Rightarrow> jsval \<Rightarrow>
   'e hook_error + jsval list \<times> (string \<times> 'e) list" where
  "normalize_response numberToString dev extractor normalizer json =
     (if \<not> truthy json \<or> \<not> is_object json then Inl InvalidResponse
      else (case normalize_loop numberToString dev normalizer
                   (filter is_record (extractor json)) [] [] of
              Inl e \<Rightarrow> Inl (Raised e)
            | Inr r \<Rightarrow> Inr r))"

subsection \<open>The hook across renders\<close>

text \<open>
  The component state that survives a render: the hook's three state variables, the
  dependencies of the last run of the effect (\<open>None\<close> before the first render), every call
  of the fetch function so far, and the call whose effect has not been cleaned up.
  Time-outs are not represented.
\<close>

record 'e mounted =
  hook :: "'e hook_state"
  deps :: "(string option \<times> string option \<times> (string \<times> string) list option) option"
  calls :: "request list"
  live :: "nat option"

definition unmounted :: "'e mounted" where
  "unmounted =
     \<lparr>hook = \<lparr>allModels_state = [], loading = False, error = None\<rparr>,
      deps = None, calls = [], live = None\<rparr>"

text \<open>The state a render reads: \<^verbatim>\<open>useState([])\<close>, \<^verbatim>\<open>useState(!!baseUrl)\<close>,
  \<^verbatim>\<open>useState(null)\<close> on the first render, the stored state after it.\<close>

definition state_at_render :: "UseModelsProps \<Rightarrow> 'e mounted \<Rightarrow> 'e hook_state" where
  "state_at_render props m =
     (case deps m of
        None \<Rightarrow>
          \<lparr>allModels_state = [],
           loading = (case baseUrl props of Some u \<Rightarrow> u \<noteq> [] | None \<Rightarrow> False),
           error = None\<rparr>
      | Some d \<Rightarrow> hook m)"

text \<open>A render followed by its effect, which runs on the first render and whenever
  \<^verbatim>\<open>[baseUrl, apiKey, queryParamsKey]\<close> changed; its clean-up unmounts the previous request.\<close>

definition render :: "((string \<times> string) list \<Rightarrow> string) \<Rightarrow> UseModelsProps \<Rightarrow> 'e mounted \<Rightarrow> 'e mounted" where
  "render serialize props m =
     (let d = (baseUrl props, apiKey props, queryParams props) in
      if deps m = Some d then m
      else (case useModels_effect serialize props (state_at_render props m) of
              (st, None) \<Rightarrow> m\<lparr>hook := st, deps := Some d, live := None\<rparr>
            | (st, Some r) \<Rightarrow>
                m\<lparr>hook := st, deps := Some d, calls := calls m @ [r],
                  live := Some (length (calls m))\<rparr>))"

text \<open>Call \<open>k\<close> of the fetch function settles: the state changes only while its effect is
  still mounted.\<close>

definition settle :: "nat \<Rightarrow> 'e hook_error + jsval list \<Rightarrow> 'e mounted \<Rightarrow> 'e mounted" where
  "settle k outcome m =
     (if live m = Some k
      then m\<lparr>hook :=
               (case outcome of
                  Inr normalized \<Rightarrow> \<lparr>allModels_state = normalized, loading = False, error = None\<rparr>
                | Inl err \<Rightarrow> \<lparr>allModels_state = [], loading = False, error = Some err\<rparr>),
             live := None\<rparr>
      else m)"

section \<open>The selector's derived list (components/model-selector.tsx)\<close>

text \<open>
  The component's props and the static models are typed: a model is an \<^verbatim>\<open>AnyModel\<close>, of which
  the derivation reads the fields below (the others ride along in the record's extension).
  \<open>created\<close> is a finite number.
\<close>

record Deprecation =
  date :: string

record AnyModel =
  id' :: string
  name :: string
  created :: rat
  deprecation :: "Deprecation option"
  is_favorite :: "bool option"

record 'm ModelSelectorProps = UseModelsProps +
  models :: "'m list"

text \<open>\<^verbatim>\<open>const effectiveBaseUrl = models.length > 0 ? undefined : baseUrl\<close>, and the props the
  selector hands to the hook.\<close>

definition effectiveBaseUrl :: "('m, 'z) ModelSelectorProps_scheme \<Rightarrow> string option" where
  "effectiveBaseUrl props = (if length (models props) > 0 then None else baseUrl props)"

definition hook_props :: "('m, 'z) ModelSelectorProps_scheme \<Rightarrow> UseModelsProps" where
  "hook_props props =
     \<lparr>baseUrl = effectiveBaseUrl props, apiKey = apiKey props,
      type_filter = type_filter props, queryParams = queryParams props\<rparr>"

datatype ('m, 'e) event =
    Rerender "'m ModelSelectorProps"
  | Settle nat "'e hook_error + jsval list"

fun step :: "((string \<times> string) list \<Rightarrow> string) \<Rightarrow> ('m, 'e) event \<Rightarrow> 'e mounted \<Rightarrow> 'e mounted" where
  "step serialize (Rerender props) m = render serialize (hook_props props) m"
| "step serialize (Settle k outcome) m = settle k outcome m"

text \<open>The \<^verbatim>\<open>fetchedModels\<close> every render of a run sees: the list read by the render, and the
  one left by its effect for the render that follows.\<close>

fun fetched_seen :: "((string \<times> string) list \<Rightarrow> string) \<Rightarrow> ('m, 'e) event list \<Rightarrow> 'e mounted \<Rightarrow> jsval list list" where
  "fetched_seen serialize [] m = []"
| "fetched_seen serialize (Rerender props # evs) m =
     fst (useModels_result (hook_props props) (state_at_render (hook_props props) m))
     # fst (useModels_result (hook_props props) (hook (render serialize (hook_props props) m)))
     # fetched_seen serialize evs (render serialize (hook_props props) m)"
| "fetched_seen serialize (Settle k outcome # evs) m =
     fetched_seen serialize evs (settle k outcome m)"

definition run :: "((string \<times> string) list \<Rightarrow> string) \<Rightarrow> ('m, 'e) event list \<Rightarrow> 'e mounted \<Rightarrow> 'e mounted" where
  "run serialize evs m = foldl (\<lambda>m ev. step serialize ev m) m evs"

subsection \<open>\<^verbatim>\<open>allModels\<close>\<close>

text \<open>\<^verbatim>\<open>map.set(k, v)\<close>: a \<^verbatim>\<open>Map\<close> keeps its keys in insertion order, and a key that is set again
  keeps its place.\<close>

fun map_set :: "'k \<Rightarrow> 'v \<Rightarrow> ('k \<times> 'v) list \<Rightarrow> ('k \<times> 'v) list" where
  "map_set k v [] = [(k, v)]"
| "map_set k v ((k', v') # kvs) = (if k = k' then (k, v) # kvs else (k', v') # map_set k v kvs)"

text \<open>\<^verbatim>\<open>fetchedModels.forEach(m => map.set(m.id, m)); models.forEach(m => map.set(m.id, m))\<close>\<close>

definition merge_models :: "('a AnyModel_scheme) list \<Rightarrow> ('a AnyModel_scheme) list \<Rightarrow> (string \<times> 'a AnyModel_scheme) list" where
  "merge_models fetchedModels static =
     foldl (\<lambda>mp m. map_set (id' m) m mp) (foldl (\<lambda>mp m. map_set (id' m) m mp) [] fetchedModels) static"

text \<open>
  \<^verbatim>\<open>map.forEach(m => { if (favoritesSet.has(m.id)) map.set(m.id, { ...m, is_favorite: true }) })\<close>,
  run when no \<^verbatim>\<open>onToggleFavorite\<close> is given.  The loop visits the entries the map has when it
  starts.
\<close>

definition overlay_favorites :: "string list \<Rightarrow> (string \<times> 'a AnyModel_scheme) list \<Rightarrow> (string \<times> 'a AnyModel_scheme) list" where
  "overlay_favorites localFavorites mp =
     foldl (\<lambda>acc (k, m).
              if id' m \<in> set localFavorites then map_set (id' m) (m\<lparr>is_favorite := Some True\<rparr>) acc
              else acc)
       mp mp"

text \<open>
  \<open>parseDate s\<close> is the time value of \<^verbatim>\<open>new Date(s)\<close>, \<open>None\<close> for an invalid date (whose time
  value is \<^verbatim>\<open>NaN\<close>); \<open>now\<close> is the time value of the \<^verbatim>\<open>now\<close> state.  A comparison with
  \<^verbatim>\<open>NaN\<close> is false, whichever way it is written.
\<close>

text \<open>\<^verbatim>\<open>if (!m.deprecation) return true; return new Date(m.deprecation.date) >= now\<close>\<close>

definition shown :: "(string \<Rightarrow> int option) \<Rightarrow> int \<Rightarrow> 'a AnyModel_scheme \<Rightarrow> bool" where
  "shown parseDate now m =
     (case deprecation m of
        None \<Rightarrow> True
      | Some d \<Rightarrow> (case parseDate (date d) of None \<Rightarrow> False | Some t \<Rightarrow> t \<ge> now))"

text \<open>\<^verbatim>\<open>m.deprecation && new Date(m.deprecation.date) < now\<close>\<close>

definition moved_to_end :: "(string \<Rightarrow> int option) \<Rightarrow> int \<Rightarrow> 'a AnyModel_scheme \<Rightarrow> bool" where
  "moved_to_end parseDate now m =
     (case deprecation m of
        None \<Rightarrow> False
      | Some d \<Rightarrow> (case parseDate (date d) of None \<Rightarrow> False | Some t \<Rightarrow> t < now))"

datatype SortOrder = ByName | ByCreated

text \<open>
  \<^verbatim>\<open>list.sort(compare)\<close> is stable: an element goes behind the ones it compares greater than
  or equal to.  \<open>after a b\<close> says that \<^verbatim>\<open>compare(a, b) > 0\<close>.
\<close>

fun insert_sorted :: "('a \<Rightarrow> 'a \<Rightarrow> bool) \<Rightarrow> 'a \<Rightarrow> 'a list \<Rightarrow> 'a list" where
  "insert_sorted after x [] = [x]"
| "insert_sorted after x (y # ys) =
     (if after x y then y # insert_sorted after x ys else x # y # ys)"

definition stable_sort :: "('a \<Rightarrow> 'a \<Rightarrow> bool) \<Rightarrow> 'a list \<Rightarrow> 'a list" where
  "stable_sort after xs = foldr (insert_sorted after) xs []"

text \<open>\<^verbatim>\<open>(a, b) => b.created - a.created\<close> and
  \<^verbatim>\<open>(a, b) => (a.name || a.id).localeCompare(b.name || b.id)\<close>; \<open>localeCompare\<close> is the
  runtime's collation.\<close>

definition name_or_id :: "'a AnyModel_scheme \<Rightarrow> string" where
  "name_or_id m = (if name m \<noteq> [] then name m else id' m)"

definition compare_after :: "(string \<Rightarrow> string \<Rightarrow> int) \<Rightarrow> SortOrder \<Rightarrow> 'a AnyModel_scheme \<Rightarrow> 'a AnyModel_scheme \<Rightarrow> bool" where
  "compare_after localeCompare sortOrder a b =
     (case sortOrder of
        ByCreated \<Rightarrow> created b - created a > 0
      | ByName \<Rightarrow> localeCompare (name_or_id a) (name_or_id b) > 0)"

text \<open>The list as it stands after the sort, before the deprecated models are moved.\<close>

definition sorted_models ::
  "(string \<Rightarrow> int option) \<Rightarrow> (string \<Rightarrow> string \<Rightarrow> int) \<Rightarrow> int \<Rightarrow> ('a AnyModel_scheme) list \<Rightarrow>
   ('a AnyModel_scheme) list \<Rightarrow> string list \<Rightarrow> bool \<Rightarrow> bool \<Rightarrow> SortOrder \<Rightarrow> ('a AnyModel_scheme) list" where
  "sorted_models parseDate localeCompare now fetchedModels static localFavorites controlled
     showDeprecated sortOrder =
     (let mp = merge_models fetchedModels static;
          mp = (if \<not> controlled then overlay_favorites localFavorites mp else mp);
          list = map snd mp;
          list = (if \<not> showDeprecated then filter (shown parseDate now) list else list)
      in stable_sort (compare_after localeCompare sortOrder) list)"

fun split_deprecated ::
  "('a \<Rightarrow> bool) \<Rightarrow> 'a list \<Rightarrow> 'a list \<Rightarrow> 'a list \<Rightarrow> 'a list \<times> 'a list" where
  "split_deprecated past [] nonDeprecated deprecated = (nonDeprecated, deprecated)"
| "split_deprecated past (m # ms) nonDeprecated deprecated =
     (if past m then split_deprecated past ms nonDeprecated (deprecated @ [m])
      else split_deprecated past ms (nonDeprecated @ [m]) deprecated)"

definition allModels ::
  "(string \<Rightarrow> int option) \<Rightarrow> (string \<Rightarrow> string \<Rightarrow> int) \<Rightarrow> int \<Rightarrow> ('a AnyModel_scheme) list \<Rightarrow>
   ('a AnyModel_scheme) list \<Rightarrow> string list \<Rightarrow> bool \<Rightarrow> bool \<Rightarrow> SortOrder \<Rightarrow> ('a AnyModel_scheme) list" where
  "allModels parseDate localeCompare now fetchedModels static localFavorites controlled
     showDeprecated sortOrder =
     (case split_deprecated (moved_to_end parseDate now)
             (sorted_models parseDate localeCompare now fetchedModels static localFavorites
                controlled showDeprecated sortOrder) [] [] of
        (nonDeprecated, deprecated) \<Rightarrow> nonDeprecated @ deprecated)"

section \<open>Statements of the specification, for comparison with the code\<close>

subsection \<open>Pricing of a text model\<close>

text \<open>The four places a text model's pricing can come from, in the order they are tried.\<close>

datatype price_source = Flat | Metadata | Cost | PerMillion

definition price_sources :: "jsval \<Rightarrow> (price_source \<times> jsval) list" where
  "price_sources raw =
     [(Flat, getv raw ''pricing''),
      (Metadata, getv (getv raw ''metadata'') ''pricing''),
      (Cost, getv raw ''cost''),
      (PerMillion, getv (getv raw ''model_spec'') ''pricing'')]"

text \<open>The pricing object resolved from one source alone.\<close>

definition no_prices :: jsval where
  "no_prices =
     JObj [(''prompt'', JUndefined), (''completion'', JUndefined),
           (''cache_input'', JUndefined), (''cache_write'', JUndefined)]"

definition priced_from :: "price_source \<Rightarrow> jsval \<Rightarrow> js_error + jsval" where
  "priced_from k src =
     (case k of
        Flat \<Rightarrow>
          bindE (toNum (getv src ''prompt'')) (\<lambda>p.
          bindE (toNum (getv src ''completion'')) (\<lambda>c.
          bindE (toNum (getv src ''cache_input'')) (\<lambda>ci.
          bindE (toNum (getv src ''cache_write'')) (\<lambda>cw.
            Inr (JObj [(''prompt'', opt_num p), (''completion'', opt_num c),
                       (''cache_input'', opt_num ci), (''cache_write'', opt_num cw)])))))
      | PerMillion \<Rightarrow>
          bindE (usd_per_token (getv src ''input'')) (\<lambda>p.
          bindE (usd_per_token (getv src ''output'')) (\<lambda>c.
          bindE (usd_per_token (getv src ''cache_input'')) (\<lambda>ci.
          bindE (usd_per_token (getv src ''cache_write'')) (\<lambda>cw.
            Inr (JObj [(''prompt'', p), (''completion'', c),
                       (''cache_input'', ci), (''cache_write'', cw)])))))
      | _ \<Rightarrow>
          bindE (toNum (getv src ''prompt'')) (\<lambda>p.
          bindE (toNum (getv src ''completion'')) (\<lambda>c.
            Inr (JObj [(''prompt'', opt_num p), (''completion'', opt_num c),
                       (''cache_input'', JUndefined), (''cache_write'', JUndefined)]))))"

text \<open>The first source that wins, and the pricing resolved from it alone, when a source
  wins by \<open>wins\<close>.\<close>

definition pricing_by :: "(jsval \<Rightarrow> bool) \<Rightarrow> jsval \<Rightarrow> js_error + jsval" where
  "pricing_by wins raw =
     (case find (\<lambda>(k, src). wins src) (price_sources raw) of
        None \<Rightarrow> Inr no_prices
      | Some (k, src) \<Rightarrow> priced_from k src)"

text \<open>A source that is non-empty: present, and not an object without properties.\<close>

definition non_empty_source :: "jsval \<Rightarrow> bool" where
  "non_empty_source src = (truthy src \<and> src \<noteq> JObj [])"

subsection \<open>The eight per-variant normalizers\<close>

definition per_variant_normalizers :: "(int \<Rightarrow> jsval \<Rightarrow> js_error + jsval) list" where
  "per_variant_normalizers =
     [normalizeTextModel, normalizeImageModel, normalizeVideoModel, normalizeInpaintModel,
      normalizeEmbeddingModel, normalizeTtsModel, normalizeAsrModel, normalizeUpscaleModel]"

text \<open>The pricing field of the canonical text model and the field of the per-million source
  it is read from.\<close>

definition price_fields :: "(string \<times> string) list" where
  "price_fields =
     [(''prompt'', ''input''), (''completion'', ''output''),
      (''cache_input'', ''cache_input''), (''cache_write'', ''cache_write'')]"

subsection \<open>Type inference and dispatch\<close>

text \<open>The character a position follows: the last one of \<open>m\<close>, or \<open>prev\<close> when \<open>m\<close> is empty.\<close>

definition char_before :: "char option \<Rightarrow> string \<Rightarrow> char option" where
  "char_before prev m = (if m = [] then prev else Some (last m))"

text \<open>
  The word \<open>w\<close> occurs in \<open>s\<close>, ignoring case and anchored at word boundaries on both sides:
  \<open>s\<close> is \<open>pre @ m @ post\<close> where \<open>m\<close> is \<open>w\<close> up to case, with a word boundary before \<open>m\<close>
  and one after it (\<open>prev\<close> is the character before \<open>s\<close>, \<open>None\<close> for a whole input).
\<close>

definition occurs_as_word :: "string \<Rightarrow> char option \<Rightarrow> string \<Rightarrow> bool" where
  "occurs_as_word w prev s \<longleftrightarrow>
     (\<exists>pre m post. s = pre @ m @ post \<and> map ascii_lower m = map ascii_lower w
        \<and> word_boundary (char_before prev pre) (next_char (m @ post))
        \<and> word_boundary (char_before (char_before prev pre) m) (next_char post))"

text \<open>Two raw records that differ in their \<^verbatim>\<open>type\<close> property at most.\<close>

definition same_but_type :: "jsval \<Rightarrow> jsval \<Rightarrow> bool" where
  "same_but_type raw raw' \<longleftrightarrow> (\<forall>k. k \<noteq> ''type'' \<longrightarrow> getv raw k = getv raw' k)"

text \<open>The normalizer of each of the eight types.\<close>

definition normalizer_for :: "ModelType \<Rightarrow> int \<Rightarrow> jsval \<Rightarrow> js_error + jsval" where
  "normalizer_for t =
     (case t of
        TextT \<Rightarrow> normalizeTextModel | ImageT \<Rightarrow> normalizeImageModel
      | VideoT \<Rightarrow> normalizeVideoModel | InpaintT \<Rightarrow> normalizeInpaintModel
      | EmbeddingT \<Rightarrow> normalizeEmbeddingModel | TtsT \<Rightarrow> normalizeTtsModel
      | AsrT \<Rightarrow> normalizeAsrModel | UpscaleT \<Rightarrow> normalizeUpscaleModel)"

subsection \<open>The retrieval hook\<close>

text \<open>The base URL starts with \<^verbatim>\<open>http://\<close> or \<^verbatim>\<open>https://\<close>, in any mix of upper and lower case.\<close>

definition has_http_scheme :: "string \<Rightarrow> bool" where
  "has_http_scheme u \<longleftrightarrow>
     prefix ''http://'' (map ascii_lower u) \<or> prefix ''https://'' (map ascii_lower u)"

text \<open>A run in which every render of the selector is given a non-empty \<^verbatim>\<open>models\<close> prop.\<close>

definition static_only :: "('m, 'e) event list \<Rightarrow> bool" where
  "static_only evs =
     list_all (\<lambda>ev. case ev of Rerender props \<Rightarrow> models props \<noteq> [] | Settle k outcome \<Rightarrow> True) evs"


definition warned_id :: "jsval \<Rightarrow> jsval" where
  "warned_id raw = js_coalesce (js_coalesce (getv raw ''id'') (getv raw ''model_id'')) (JStr ''unknown'')"




subsection \<open>The derived list\<close>

text \<open>Every model of the map sits under its own id.\<close>

definition keyed :: "(string \<times> 'a AnyModel_scheme) list \<Rightarrow> bool" where
  "keyed mp \<longleftrightarrow> (\<forall>(k, m) \<in> set mp. id' m = k)"

text \<open>
  The model that wins an id in the merge: the statically supplied model of that id (the last
  one, should the static list repeat the id), and only when there is none the fetched model of
  that id.
\<close>

definition merged_entry ::
  "('a AnyModel_scheme) list \<Rightarrow> ('a AnyModel_scheme) list \<Rightarrow> string \<Rightarrow> 'a AnyModel_scheme option" where
  "merged_entry fetchedModels static k =
     (if filter (\<lambda>m. id' m = k) static \<noteq> [] then Some (last (filter (\<lambda>m. id' m = k) static))
      else if filter (\<lambda>m. id' m = k) fetchedModels \<noteq> []
      then Some (last (filter (\<lambda>m. id' m = k) fetchedModels))
      else None)"

text \<open>The model as it is listed: marked as a favourite when the selector keeps the favourites
  itself and the id is one of them, and unchanged otherwise.\<close>

definition with_favorite :: "string list \<Rightarrow> bool \<Rightarrow> 'a AnyModel_scheme \<Rightarrow> 'a AnyModel_scheme" where
  "with_favorite localFavorites controlled m =
     (if \<not> controlled \<and> id' m \<in> set localFavorites then m\<lparr>is_favorite := Some True\<rparr> else m)"

text \<open>The model has a deprecation date that is an instant strictly before \<open>now\<close>.\<close>

definition deprecated_before :: "(string \<Rightarrow> int option) \<Rightarrow> int \<Rightarrow> 'a AnyModel_scheme \<Rightarrow> bool" where
  "deprecated_before parseDate now m \<longleftrightarrow>
     (\<exists>d t. deprecation m = Some d \<and> parseDate (date d) = Some t \<and> t < now)"

text \<open>
  The time values of the dates used in the examples: a date-only ISO string is midnight UTC
  of that day, \<^verbatim>\<open>not-a-date\<close> is an invalid date.
\<close>

definition example_Date :: "string \<Rightarrow> int option" where
  "example_Date s =
     (if s = ''2019-12-31'' then Some 1577750400000
      else if s = ''2020-01-01'' then Some 1577836800000
      else if s = ''2030-01-01'' then Some 1893456000000
      else None)"

text \<open>The state of a component that has not called the fetch function, has no request in
  flight and, once mounted, holds no fetched model.\<close>

definition no_fetch :: "'e mounted \<Rightarrow> bool" where
  "no_fetch m \<longleftrightarrow>
     calls m = [] \<and> live m = None \<and> (deps m \<noteq> None \<longrightarrow> allModels_state (hook m) = [])"

text \<open>What every state of a mounted selector satisfies: when the effect last ran without a
  \<^verbatim>\<open>baseUrl\<close>, no fetched model is held and no request is awaited.\<close>

definition static_settled :: "'e mounted \<Rightarrow> bool" where
  "static_settled m \<longleftrightarrow>
     (case deps m of
        Some (None, d) \<Rightarrow> allModels_state (hook m) = [] \<and> live m = None
      | _ \<Rightarrow> True)"

text \<open>The state of a mounted component that holds no fetched model and awaits no request.\<close>

definition cleared :: "'e mounted \<Rightarrow> bool" where
  "cleared m \<longleftrightarrow> deps m \<noteq> None \<and> live m = None \<and> allModels_state (hook m) = []"

section \<open>Evaluation of the definitions on concrete inputs\<close>

named_theorems js_eval

lemmas [js_eval] =
  toNum_def StringToNumber_def trim_ws_def StrWhiteSpaceChar_def StrUnsignedDecimalLiteral_def
  digits_in_def digit_in_def ascii_lower_def digits_or_none_def to_double_def SignedInteger_def
  Let_def

text \<open>The cases of the repository's own test of \<^verbatim>\<open>toNum\<close>.\<close>

lemma toNum_examples:
  "toNum (JNum (Fin 42)) = Inr (Some (Fin 42))"
  "toNum (JStr ''42'') = Inr (Some (Fin 42))"
  "toNum JNull = Inr None"
  "toNum JUndefined = Inr None"
  "toNum (JStr []) = Inr None"
  "toNum (JStr ''abc'') = Inr None"
  "toNum (JNum NaN) = Inr None"
  "toNum (JNum (Fin 0)) = Inr (Some (Fin 0))"
  "toNum (JNum (Fin (- 5))) = Inr (Some (Fin (- 5)))"
  "toNum (JStr ''3.14'') = Inr (Some (Fin (314 / 100)))"
  by (simp_all add: js_eval)

section \<open>\<^verbatim>\<open>toNum\<close>\<close>

text \<open>
  C8, as the code has it.  \<^verbatim>\<open>toNum(v)\<close> throws exactly when \<^verbatim>\<open>Number(v)\<close> does, which is when
  \<open>v\<close> is an object or array whose conversion to a primitive throws; it never throws on
  \<^verbatim>\<open>null\<close>, \<^verbatim>\<open>undefined\<close>, a boolean, a number or a string.  A number other than \<^verbatim>\<open>NaN\<close> is
  returned as it is, the infinities included; a non-empty string gives the number it reads
  as, unless that is \<^verbatim>\<open>NaN\<close>.  The result is absent exactly for \<^verbatim>\<open>null\<close>, \<^verbatim>\<open>undefined\<close>, the
  empty string and the values that \<^verbatim>\<open>Number\<close> turns into \<^verbatim>\<open>NaN\<close>.
\<close>

theorem toNum_behaviour:
  "(toNum v = Inl e \<longleftrightarrow> e = TypeError \<and> toString_throws v)
   \<and> toNum (JNum n) = Inr (if n = NaN then None else Some n)
   \<and> toNum JNull = Inr None \<and> toNum JUndefined = Inr None \<and> toNum (JStr []) = Inr None
   \<and> toNum (JStr (c # cs)) =
        Inr (if StringToNumber (c # cs) = NaN then None else Some (StringToNumber (c # cs)))
   \<and> (toNum v = Inr None \<longleftrightarrow>
        v = JNull \<or> v = JUndefined \<or> v = JStr [] \<or> ToNumber v = Inr NaN)"
  by (cases v) (auto simp: toNum_def)

theorem toNum_behaviour_witness:
  "toNum (JObj [(''toString'', JNum (Fin 1))]) = Inl TypeError
   \<and> toNum (JNum PosInf) = Inr (Some PosInf)
   \<and> toNum (JStr ''42'') = Inr (Some (Fin 42))
   \<and> toNum (JBool False) = Inr (Some (Fin 0))"
  using toNum_behaviour [of "JObj [(''toString'', JNum (Fin 1))]" TypeError PosInf "CHR ''4''" "''2''"]
  by (simp add: js_eval)

text \<open>
  C8 as stated fails: the number \<^verbatim>\<open>Infinity\<close> and the string \<^verbatim>\<open>"Infinity"\<close> do not parse to a
  finite number, and \<^verbatim>\<open>toNum\<close> returns \<^verbatim>\<open>Infinity\<close> for both instead of absent (the test is
  \<^verbatim>\<open>Number.isNaN\<close>); and \<^verbatim>\<open>toNum\<close> throws on the JSON value \<^verbatim>\<open>{"toString": 1}\<close>.
\<close>

theorem toNum_counterexample:
  "toNum (JNum PosInf) = Inr (Some PosInf)
   \<and> toNum (JStr ''Infinity'') = Inr (Some PosInf)
   \<and> toNum (JObj [(''toString'', JNum (Fin 1))]) = Inl TypeError"
  by (simp add: js_eval)

lemmas [js_eval] =
  bindE_def spread_with_def own_props_def pick_def opt_num_def js_or_def js_coalesce_def
  nullish_def provider_of_def extractBaseFields_def usd_per_token_def num_coalesce_def
  text_pricing_def normalizeTextModel_def

lemma map_of_set_prop: "map_of (set_prop k v ps) = (map_of ps)(k \<mapsto> v)"
  by (induction ps) (auto simp: fun_eq_iff)

lemma text_pricing_first_present: "text_pricing raw = pricing_by truthy raw"
  by (simp add: text_pricing_def pricing_by_def price_sources_def priced_from_def no_prices_def Let_def)

lemma normalizeTextModel_pricing:
  "normalizeTextModel clock raw = Inr m \<Longrightarrow> text_pricing raw = Inr (getv m ''pricing'')"
  by (auto simp: normalizeTextModel_def bindE_def Let_def spread_with_def map_of_set_prop
      split: sum.splits)

lemma toNum_undefined: "toNum JUndefined = Inr None"
  by (simp add: toNum_def)

lemma priced_from_absent:
  assumes "priced_from k src = Inr p" and "(f, g) \<in> set price_fields"
  shows "k \<noteq> PerMillion \<Longrightarrow> getv src f = JUndefined \<Longrightarrow> getv p f = JUndefined"
    and "k = PerMillion \<Longrightarrow> getv (getv src g) ''usd'' = JUndefined \<Longrightarrow> getv p f = JUndefined"
    and "k = PerMillion \<Longrightarrow> getv (getv src g) ''usd'' = JNum (Fin 6) \<Longrightarrow> getv p f = JNum (Fin (6 / 1000000))"
  using assms
  by (auto simp: priced_from_def price_fields_def bindE_def toNum_undefined opt_num_def usd_per_token_def
      split: price_source.splits sum.splits if_splits)

section \<open>Pricing of a text model\<close>

text \<open>
  C2, as the code has it.  When \<^verbatim>\<open>normalizeTextModel\<close> returns, its pricing is the one resolved
  from a single source: the first of \<^verbatim>\<open>raw.pricing\<close>, \<^verbatim>\<open>raw.metadata?.pricing\<close>, \<^verbatim>\<open>raw.cost\<close>,
  \<^verbatim>\<open>raw.model_spec?.pricing\<close> that is truthy (an empty object is), and no other source is read.
  A field that is \<^verbatim>\<open>undefined\<close> at that source, or any field when no source is truthy, is
  \<^verbatim>\<open>undefined\<close> in the result; under the per-million source a \<^verbatim>\<open>usd\<close> of 6 becomes 6 / 1000000.
\<close>

theorem text_pricing_single_source:
  "normalizeTextModel clock raw = Inr m \<Longrightarrow>
     Inr (getv m ''pricing'') = pricing_by truthy raw
     \<and> (\<forall>f g. (f, g) \<in> set price_fields \<longrightarrow>
          (case find (\<lambda>(k, src). truthy src) (price_sources raw) of
             None \<Rightarrow> getv (getv m ''pricing'') f = JUndefined
           | Some (k, src) \<Rightarrow>
               if k = PerMillion
               then (getv (getv src g) ''usd'' = JUndefined \<longrightarrow>
                       getv (getv m ''pricing'') f = JUndefined)
                  \<and> (getv (getv src g) ''usd'' = JNum (Fin 6) \<longrightarrow>
                       getv (getv m ''pricing'') f = JNum (Fin (6 / 1000000)))
               else (getv src f = JUndefined \<longrightarrow> getv (getv m ''pricing'') f = JUndefined)))"
proof -
  assume ok: "normalizeTextModel clock raw = Inr m"
  then have p: "pricing_by truthy raw = Inr (getv m ''pricing'')"
    using normalizeTextModel_pricing text_pricing_first_present by metis
  show ?thesis
  proof (intro conjI allI impI)
    show "Inr (getv m ''pricing'') = pricing_by truthy raw" using p by simp
  next
    fix f g assume fg: "(f, g) \<in> set price_fields"
    show "case find (\<lambda>(k, src). truthy src) (price_sources raw) of
             None \<Rightarrow> getv (getv m ''pricing'') f = JUndefined
           | Some (k, src) \<Rightarrow>
               if k = PerMillion
               then (getv (getv src g) ''usd'' = JUndefined \<longrightarrow>
                       getv (getv m ''pricing'') f = JUndefined)
                  \<and> (getv (getv src g) ''usd'' = JNum (Fin 6) \<longrightarrow>
                       getv (getv m ''pricing'') f = JNum (Fin (6 / 1000000)))
               else (getv src f = JUndefined \<longrightarrow> getv (getv m ''pricing'') f = JUndefined)"
    proof (cases "find (\<lambda>(k, src). truthy src) (price_sources raw)")
      case None
      with p have "getv m ''pricing'' = no_prices" by (simp add: pricing_by_def)
      with fg None show ?thesis by (auto simp: no_prices_def price_fields_def)
    next
      case (Some a)
      obtain k src where a: "a = (k, src)" by (cases a)
      with p Some have "priced_from k src = Inr (getv m ''pricing'')" by (simp add: pricing_by_def)
      from priced_from_absent [OF this fg] Some a show ?thesis by auto
    qed
  qed
qed

theorem text_pricing_single_source_witness:
  "(\<exists>m. normalizeTextModel 0
          (JObj [(''id'', JStr ''venice/llama''),
                 (''model_spec'', JObj [(''pricing'', JObj [(''input'', JObj [(''usd'', JNum (Fin 6))])])])])
        = Inr m
      \<and> getv (getv m ''pricing'') ''prompt'' = JNum (Fin (6 / 1000000))
      \<and> getv (getv m ''pricing'') ''completion'' = JUndefined)"
proof -
  let ?raw = "JObj [(''id'', JStr ''venice/llama''),
                 (''model_spec'', JObj [(''pricing'', JObj [(''input'', JObj [(''usd'', JNum (Fin 6))])])])]"
  have "\<exists>m. normalizeTextModel 0 ?raw = Inr m"
    by (simp add: js_eval)
  then obtain m where m: "normalizeTextModel 0 ?raw = Inr m" ..
  have "getv (getv m ''pricing'') ''prompt'' = JNum (Fin (6 / 1000000))
      \<and> getv (getv m ''pricing'') ''completion'' = JUndefined"
    using text_pricing_single_source [OF m]
    by (simp add: price_sources_def price_fields_def)
  with m show ?thesis by blast
qed

text \<open>
  C2 as stated fails on \<^verbatim>\<open>{id: "m", pricing: {}, model_spec: {pricing: {input: {usd: 6}}}}\<close>:
  the flat source is empty, so the first non-empty source is the per-million one, which
  would give a prompt price of 6 / 1000000; the code stops at the empty object
  (\<^verbatim>\<open>if (rawPricing)\<close>) and leaves every price \<^verbatim>\<open>undefined\<close>.
\<close>

theorem text_pricing_counterexample:
  "normalizeTextModel 0
     (JObj [(''id'', JStr ''m''), (''pricing'', JObj []),
            (''model_spec'', JObj [(''pricing'', JObj [(''input'', JObj [(''usd'', JNum (Fin 6))])])])])
   = Inr (JObj
       [(''id'', JStr ''m''), (''name'', JStr ''m''), (''provider'', JStr ''Unknown''),
        (''created'', JNum (Fin 0)), (''description'', JUndefined), (''betaModel'', JUndefined),
        (''privacy'', JUndefined), (''offline'', JUndefined), (''modelSource'', JUndefined),
        (''traits'', JUndefined), (''deprecation'', JUndefined), (''is_favorite'', JBool False),
        (''type'', JStr ''text''), (''context_length'', JNum (Fin 0)),
        (''pricing'',
           JObj [(''prompt'', JUndefined), (''completion'', JUndefined),
                 (''cache_input'', JUndefined), (''cache_write'', JUndefined)]),
        (''capabilities'', JUndefined), (''constraints'', JUndefined)])
   \<and> pricing_by non_empty_source
       (JObj [(''id'', JStr ''m''), (''pricing'', JObj []),
              (''model_spec'', JObj [(''pricing'', JObj [(''input'', JObj [(''usd'', JNum (Fin 6))])])])])
     = Inr (JObj [(''prompt'', JNum (Fin (6 / 1000000))), (''completion'', JUndefined),
                  (''cache_input'', JUndefined), (''cache_write'', JUndefined)])"
  by (simp add: js_eval pricing_by_def price_sources_def priced_from_def non_empty_source_def)

section \<open>The favourite flag\<close>

lemma extractBaseFields_favorite:
  "extractBaseFields clock raw = Inr base \<Longrightarrow>
     \<exists>kvs. base = JObj kvs \<and> map_of kvs ''is_favorite'' = Some (JBool False)"
  by (auto simp: extractBaseFields_def bindE_def Let_def split: if_splits sum.splits)

lemma spread_keeps_favorite:
  "map_of kvs ''is_favorite'' = Some (JBool False) \<Longrightarrow> ''is_favorite'' \<notin> fst ` set extra \<Longrightarrow>
     getv (spread_with (JObj kvs) extra) ''is_favorite'' = JBool False"
proof (induction extra arbitrary: kvs)
  case Nil
  then show ?case by (simp add: spread_with_def own_props_def)
next
  case (Cons a extra)
  obtain k v where a: "a = (k, v)" by (cases a)
  from Cons.prems a have "map_of (set_prop k v kvs) ''is_favorite'' = Some (JBool False)"
    by (auto simp: map_of_set_prop)
  from Cons.IH [OF this] Cons.prems(2) a show ?case
    by (simp add: spread_with_def own_props_def)
qed

lemma text_favorite:
  "normalizeTextModel clock raw = Inr m \<Longrightarrow> getv m ''is_favorite'' = JBool False"
  by (auto simp: normalizeTextModel_def bindE_def Let_def split: sum.splits
      dest!: extractBaseFields_favorite intro!: spread_keeps_favorite)

lemma image_favorite:
  "normalizeImageModel clock raw = Inr m \<Longrightarrow> getv m ''is_favorite'' = JBool False"
  by (auto simp: normalizeImageModel_def bindE_def Let_def split: sum.splits
      dest!: extractBaseFields_favorite intro!: spread_keeps_favorite)

lemma video_favorite:
  "normalizeVideoModel clock raw = Inr m \<Longrightarrow> getv m ''is_favorite'' = JBool False"
  by (auto simp: normalizeVideoModel_def bindE_def Let_def split: sum.splits
      dest!: extractBaseFields_favorite intro!: spread_keeps_favorite)

lemma inpaint_favorite:
  "normalizeInpaintModel clock raw = Inr m \<Longrightarrow> getv m ''is_favorite'' = JBool False"
  by (auto simp: normalizeInpaintModel_def bindE_def Let_def split: sum.splits
      dest!: extractBaseFields_favorite intro!: spread_keeps_favorite)

lemma embedding_favorite:
  "normalizeEmbeddingModel clock raw = Inr m \<Longrightarrow> getv m ''is_favorite'' = JBool False"
  by (auto simp: normalizeEmbeddingModel_def bindE_def Let_def split: sum.splits
      dest!: extractBaseFields_favorite intro!: spread_keeps_favorite)

lemma tts_favorite:
  "normalizeTtsModel clock raw = Inr m \<Longrightarrow> getv m ''is_favorite'' = JBool False"
  by (auto simp: normalizeTtsModel_def bindE_def Let_def split: sum.splits
      dest!: extractBaseFields_favorite intro!: spread_keeps_favorite)

lemma asr_favorite:
  "normalizeAsrModel clock raw = Inr m \<Longrightarrow> getv m ''is_favorite'' = JBool False"
  by (auto simp: normalizeAsrModel_def bindE_def Let_def split: sum.splits
      dest!: extractBaseFields_favorite intro!: spread_keeps_favorite)

lemma upscale_favorite:
  "normalizeUpscaleModel clock raw = Inr m \<Longrightarrow> getv m ''is_favorite'' = JBool False"
  by (auto simp: normalizeUpscaleModel_def bindE_def Let_def split: sum.splits
      dest!: extractBaseFields_favorite intro!: spread_keeps_favorite)

text \<open>
  C9.  Whatever the raw record holds, a model that one of the eight per-variant normalizers
  returns has \<^verbatim>\<open>is_favorite\<close> equal to \<^verbatim>\<open>false\<close>.
\<close>

theorem is_favorite_false:
  "list_all (\<lambda>normalize. \<forall>m. normalize clock raw = Inr m \<longrightarrow> getv m ''is_favorite'' = JBool False)
     per_variant_normalizers"
  by (simp add: per_variant_normalizers_def text_favorite image_favorite video_favorite
      inpaint_favorite embedding_favorite tts_favorite asr_favorite upscale_favorite)

theorem is_favorite_false_witness:
  "\<exists>m. normalizeAsrModel 0
          (JObj [(''id'', JStr ''openai/whisper-1''), (''is_favorite'', JBool True),
                 (''model_spec'', JObj [(''is_favorite'', JBool True)])])
        = Inr m
      \<and> getv m ''is_favorite'' = JBool False"
proof -
  let ?raw = "JObj [(''id'', JStr ''openai/whisper-1''), (''is_favorite'', JBool True),
                 (''model_spec'', JObj [(''is_favorite'', JBool True)])]"
  have "\<exists>m. normalizeAsrModel 0 ?raw = Inr m"
    by (simp add: js_eval normalizeAsrModel_def)
  then obtain m where m: "normalizeAsrModel 0 ?raw = Inr m" ..
  have "getv m ''is_favorite'' = JBool False"
    using is_favorite_false [of 0 ?raw] m by (simp add: per_variant_normalizers_def)
  with m show ?thesis by blast
qed

section \<open>Type inference and the dispatching normalizer\<close>

lemma match_literal_iff:
  "match_literal w prev s = Some (p, rest) \<longleftrightarrow>
     (\<exists>m. s = m @ rest \<and> map ascii_lower m = map ascii_lower w \<and> p = char_before prev m)"
proof (induction w prev s rule: match_literal.induct)
  case (1 prev s)
  then show ?case by (auto simp: char_before_def)
next
  case (2 p ps prev)
  then show ?case by auto
next
  case (3 p ps prev c cs)
  show ?case
  proof (cases "ascii_lower p = ascii_lower c")
    case True
    have "(\<exists>m. c # cs = m @ rest \<and> map ascii_lower m = map ascii_lower (p # ps) \<and> pa = char_before prev m)
        \<longleftrightarrow> (\<exists>m'. cs = m' @ rest \<and> map ascii_lower m' = map ascii_lower ps \<and> pa = char_before (Some c) m')" for pa
    proof
      assume "\<exists>m. c # cs = m @ rest \<and> map ascii_lower m = map ascii_lower (p # ps) \<and> pa = char_before prev m"
      then obtain m where m: "c # cs = m @ rest" "map ascii_lower m = map ascii_lower (p # ps)" "pa = char_before prev m"
        by blast
      then obtain m' where m': "m = c # m'" by (cases m) auto
      with m show "\<exists>m'. cs = m' @ rest \<and> map ascii_lower m' = map ascii_lower ps \<and> pa = char_before (Some c) m'"
        by (auto simp: char_before_def)
    next
      assume "\<exists>m'. cs = m' @ rest \<and> map ascii_lower m' = map ascii_lower ps \<and> pa = char_before (Some c) m'"
      then obtain m' where "cs = m' @ rest" "map ascii_lower m' = map ascii_lower ps" "pa = char_before (Some c) m'"
        by blast
      with True show "\<exists>m. c # cs = m @ rest \<and> map ascii_lower m = map ascii_lower (p # ps) \<and> pa = char_before prev m"
        by (intro exI [of _ "c # m'"]) (auto simp: char_before_def)
    qed
    with 3 True show ?thesis by simp
  next
    case False
    then show ?thesis by (auto simp: Cons_eq_append_conv)
  qed
qed

lemma match_at_iff:
  "match_at alts prev s \<longleftrightarrow>
     (\<exists>w \<in> set alts. \<exists>m post. s = m @ post \<and> map ascii_lower m = map ascii_lower w
        \<and> word_boundary prev (next_char (m @ post))
        \<and> word_boundary (char_before prev m) (next_char post))"
proof -
  have "(case match_literal w prev s of None \<Rightarrow> False
          | Some (prev', rest) \<Rightarrow> word_boundary prev' (next_char rest))
     \<longleftrightarrow> (\<exists>m post. s = m @ post \<and> map ascii_lower m = map ascii_lower w
        \<and> word_boundary (char_before prev m) (next_char post))" for w
  proof (cases "match_literal w prev s")
    case None
    then have "\<not> (\<exists>m post. s = m @ post \<and> map ascii_lower m = map ascii_lower w)"
      using match_literal_iff [of w prev s] by (metis option.distinct(1))
    with None show ?thesis by auto
  next
    case (Some a)
    obtain p rest where a: "a = (p, rest)" by (cases a)
    with Some match_literal_iff [of w prev s p rest]
    obtain m where m: "s = m @ rest" "map ascii_lower m = map ascii_lower w" "p = char_before prev m"
      by auto
    have u: "m' = m \<and> post = rest" if "s = m' @ post" "map ascii_lower m' = map ascii_lower w" for m' post
    proof -
      from that m have "length m' = length m" by (metis length_map)
      with that m show ?thesis by auto
    qed
    have "(\<exists>m' post. s = m' @ post \<and> map ascii_lower m' = map ascii_lower w
        \<and> word_boundary (char_before prev m') (next_char post))
      \<longleftrightarrow> word_boundary (char_before prev m) (next_char rest)" (is "?L \<longleftrightarrow> ?R")
    proof
      assume ?L
      then obtain m' post where l: "s = m' @ post" "map ascii_lower m' = map ascii_lower w"
        "word_boundary (char_before prev m') (next_char post)" by blast
      from u [OF l(1,2)] l(3) show ?R by simp
    next
      assume ?R
      with m(1,2) show ?L by blast
    qed
    with Some a m(3) show ?thesis by simp
  qed
  then have "match_at alts prev s \<longleftrightarrow>
     (word_boundary prev (next_char s) \<and>
      (\<exists>w \<in> set alts. \<exists>m post. s = m @ post \<and> map ascii_lower m = map ascii_lower w
        \<and> word_boundary (char_before prev m) (next_char post)))"
    unfolding match_at_def list_ex_iff by simp
  then show ?thesis by blast
qed

lemma regex_test_iff:
  "regex_test alts prev s \<longleftrightarrow> (\<exists>w \<in> set alts. occurs_as_word w prev s)"
proof (induction s arbitrary: prev)
  case Nil
  show ?case
    by (auto simp: match_at_iff occurs_as_word_def char_before_def)
next
  case (Cons c cs)
  have "occurs_as_word w prev (c # cs) \<longleftrightarrow>
      (\<exists>m post. c # cs = m @ post \<and> map ascii_lower m = map ascii_lower w
        \<and> word_boundary prev (next_char (m @ post))
        \<and> word_boundary (char_before prev m) (next_char post))
      \<or> occurs_as_word w (Some c) cs" for w
  proof
    assume "occurs_as_word w prev (c # cs)"
    then obtain pre m post where o: "c # cs = pre @ m @ post" "map ascii_lower m = map ascii_lower w"
       "word_boundary (char_before prev pre) (next_char (m @ post))"
       "word_boundary (char_before (char_before prev pre) m) (next_char post)"
      unfolding occurs_as_word_def by blast
    show "(\<exists>m post. c # cs = m @ post \<and> map ascii_lower m = map ascii_lower w
        \<and> word_boundary prev (next_char (m @ post))
        \<and> word_boundary (char_before prev m) (next_char post))
      \<or> occurs_as_word w (Some c) cs"
    proof (cases pre)
      case Nil
      with o have "c # cs = m @ post \<and> map ascii_lower m = map ascii_lower w
        \<and> word_boundary prev (next_char (m @ post))
        \<and> word_boundary (char_before prev m) (next_char post)"
        by (simp add: char_before_def)
      then show ?thesis by blast
    next
      case (Cons a pre')
      with o have "cs = pre' @ m @ post" "char_before prev pre = char_before (Some c) pre'"
        by (simp_all add: char_before_def)
      with o have "cs = pre' @ m @ post \<and> map ascii_lower m = map ascii_lower w
        \<and> word_boundary (char_before (Some c) pre') (next_char (m @ post))
        \<and> word_boundary (char_before (char_before (Some c) pre') m) (next_char post)"
        by simp
      then have "occurs_as_word w (Some c) cs" unfolding occurs_as_word_def by blast
      then show ?thesis ..
    qed
  next
    assume "(\<exists>m post. c # cs = m @ post \<and> map ascii_lower m = map ascii_lower w
        \<and> word_boundary prev (next_char (m @ post))
        \<and> word_boundary (char_before prev m) (next_char post))
      \<or> occurs_as_word w (Some c) cs"
    then show "occurs_as_word w prev (c # cs)"
    proof
      assume "\<exists>m post. c # cs = m @ post \<and> map ascii_lower m = map ascii_lower w
        \<and> word_boundary prev (next_char (m @ post))
        \<and> word_boundary (char_before prev m) (next_char post)"
      then obtain m post where "c # cs = m @ post" "map ascii_lower m = map ascii_lower w"
        "word_boundary prev (next_char (m @ post))"
        "word_boundary (char_before prev m) (next_char post)"
        by blast
      then have "c # cs = [] @ m @ post \<and> map ascii_lower m = map ascii_lower w
        \<and> word_boundary (char_before prev []) (next_char (m @ post))
        \<and> word_boundary (char_before (char_before prev []) m) (next_char post)"
        by (simp add: char_before_def)
      then show ?thesis unfolding occurs_as_word_def by blast
    next
      assume "occurs_as_word w (Some c) cs"
      then obtain pre m post where o: "cs = pre @ m @ post" "map ascii_lower m = map ascii_lower w"
       "word_boundary (char_before (Some c) pre) (next_char (m @ post))"
       "word_boundary (char_before (char_before (Some c) pre) m) (next_char post)"
        unfolding occurs_as_word_def by blast
      then have "c # cs = (c # pre) @ m @ post" "char_before prev (c # pre) = char_before (Some c) pre"
        by (simp_all add: char_before_def)
      with o have "c # cs = (c # pre) @ m @ post \<and> map ascii_lower m = map ascii_lower w
        \<and> word_boundary (char_before prev (c # pre)) (next_char (m @ post))
        \<and> word_boundary (char_before (char_before prev (c # pre)) m) (next_char post)"
        by simp
      then show ?thesis unfolding occurs_as_word_def by blast
    qed
  qed
  with Cons show ?case by (auto simp: match_at_iff)
qed

lemma same_but_typeD: "same_but_type raw raw' \<Longrightarrow> k \<noteq> ''type'' \<Longrightarrow> getv raw k = getv raw' k"
  by (simp add: same_but_type_def)

lemma provider_same: "same_but_type raw raw' \<Longrightarrow> provider_of raw i = provider_of raw' i"
  by (simp add: provider_of_def same_but_typeD Let_def)

lemma base_same: "same_but_type raw raw' \<Longrightarrow> extractBaseFields clock raw = extractBaseFields clock raw'"
  by (simp add: extractBaseFields_def provider_same [of raw raw'] same_but_typeD Let_def)

lemma text_same: "same_but_type raw raw' \<Longrightarrow> normalizeTextModel clock raw = normalizeTextModel clock raw'"
  by (simp add: normalizeTextModel_def text_pricing_def same_but_typeD base_same [of raw raw'] Let_def)

lemma image_same: "same_but_type raw raw' \<Longrightarrow> normalizeImageModel clock raw = normalizeImageModel clock raw'"
  by (simp add: normalizeImageModel_def same_but_typeD base_same [of raw raw'] Let_def)

lemma video_same: "same_but_type raw raw' \<Longrightarrow> normalizeVideoModel clock raw = normalizeVideoModel clock raw'"
  by (simp add: normalizeVideoModel_def same_but_typeD base_same [of raw raw'] Let_def)

lemma inpaint_same: "same_but_type raw raw' \<Longrightarrow> normalizeInpaintModel clock raw = normalizeInpaintModel clock raw'"
  by (simp add: normalizeInpaintModel_def same_but_typeD base_same [of raw raw'] Let_def)

lemma embedding_same: "same_but_type raw raw' \<Longrightarrow> normalizeEmbeddingModel clock raw = normalizeEmbeddingModel clock raw'"
  by (simp add: normalizeEmbeddingModel_def same_but_typeD base_same [of raw raw'] Let_def)

lemma tts_same: "same_but_type raw raw' \<Longrightarrow> normalizeTtsModel clock raw = normalizeTtsModel clock raw'"
  by (simp add: normalizeTtsModel_def same_but_typeD base_same [of raw raw'] Let_def)

lemma asr_same: "same_but_type raw raw' \<Longrightarrow> normalizeAsrModel clock raw = normalizeAsrModel clock raw'"
  by (simp add: normalizeAsrModel_def same_but_typeD base_same [of raw raw'] Let_def)

lemma upscale_same: "same_but_type raw raw' \<Longrightarrow> normalizeUpscaleModel clock raw = normalizeUpscaleModel clock raw'"
  by (simp add: normalizeUpscaleModel_def same_but_typeD base_same [of raw raw'] Let_def)

lemma explicit_type_None_iff:
  "explicit_type t = None \<longleftrightarrow> (\<forall>ty. t \<noteq> JStr (type_name ty))"
proof
  assume n: "explicit_type t = None"
  show "\<forall>ty. t \<noteq> JStr (type_name ty)"
  proof (intro allI notI)
    fix ty assume "t = JStr (type_name ty)"
    moreover have "ty \<in> set VALID_TYPES" by (cases ty) (simp_all add: VALID_TYPES_def)
    moreover have "type_name ty \<noteq> []" by (cases ty) (simp_all add: type_name_def)
    ultimately show False using n
      by (auto simp: explicit_type_def find_None_iff)
  qed
next
  assume "\<forall>ty. t \<noteq> JStr (type_name ty)"
  then show "explicit_type t = None"
    by (auto simp: explicit_type_def find_None_iff split: jsval.splits)
qed

lemma first_rule_find:
  "first_rule rules s = map_option snd (find (\<lambda>(alts, t). regex_test alts None s) rules)"
  by (induction rules) auto

lemmas [js_eval] =
  inferTypeFromId_def MODEL_ID_TYPE_PATTERNS_def match_at_def word_boundary_def next_char_def
  is_word_char_def

lemma infer_examples:
  "inferTypeFromId ''gpt-4-vision-preview'' = None"
  "inferTypeFromId ''dall-e-3'' = Some ImageT"
  "inferTypeFromId ''my-video-model'' = Some VideoT"
  "inferTypeFromId ''gpt-4o'' = None"
  by (simp_all add: js_eval)

lemma foldl_set_prop_lookup:
  "map_of (foldl (\<lambda>ps (k, v). set_prop k v ps) ps kvs) = map_of ps ++ map_of (rev kvs)"
proof (induction kvs arbitrary: ps)
  case Nil
  then show ?case by simp
next
  case (Cons a kvs)
  obtain k v where a: "a = (k, v)" by (cases a)
  have "map_of (set_prop k v ps) ++ map_of (rev kvs) = map_of ps ++ (map_of (rev kvs @ [(k, v)]))"
    by (simp add: map_of_set_prop fun_eq_iff map_add_def split: option.splits)
  with Cons a show ?case by simp
qed

lemma getv_spread_with:
  "getv (spread_with base kvs) k
     = (case map_of (rev kvs) k of Some v \<Rightarrow> v | None \<Rightarrow> getv (JObj (own_props base)) k)"
  by (simp add: spread_with_def foldl_set_prop_lookup map_add_def split: option.splits)

lemma normalizer_for_type:
  "normalizer_for t clock raw = Inr m \<Longrightarrow> getv m ''type'' = JStr (type_name t)"
  by (cases t)
    (auto simp: normalizer_for_def type_name_def normalizeTextModel_def normalizeImageModel_def
      normalizeVideoModel_def normalizeInpaintModel_def normalizeEmbeddingModel_def
      normalizeTtsModel_def normalizeAsrModel_def normalizeUpscaleModel_def bindE_def Let_def
      getv_spread_with split: sum.splits)

lemma explicit_type_name: "explicit_type (JStr (type_name t)) = Some t"
  by (cases t) (simp_all add: explicit_type_def type_name_def VALID_TYPES_def)

lemma dispatch_for:
  "defaultModelNormalizer numberToString clock raw
     = bindE (resolve_type numberToString raw) (\<lambda>t. normalizer_for t clock raw)"
  by (simp add: defaultModelNormalizer_def normalizer_for_def bindE_def
      split: sum.splits ModelType.splits)

text \<open>
  C7.  \<^verbatim>\<open>inferTypeFromId\<close> returns the type of the first rule, in the order of the list, one of
  whose words occurs in the id ignoring case and between word boundaries, and no match when
  there is none: \<^verbatim>\<open>gpt-4-vision-preview\<close> matches no rule (so it is not a video model) and
  \<^verbatim>\<open>dall-e-3\<close> is an image model.  The dispatching normalizer gives a raw record whose
  \<^verbatim>\<open>type\<close> is one of the eight known strings to the normalizer of that type.  A record whose
  \<^verbatim>\<open>type\<close> is anything else goes to the normalizer of the type inferred from its id, and to the
  text normalizer when nothing is inferred; it is normalized exactly as the same record
  without a \<^verbatim>\<open>type\<close>.  The normalizer of a type tags its model with that type.
\<close>

theorem type_resolution:
  "inferTypeFromId ''gpt-4-vision-preview'' = None
   \<and> inferTypeFromId ''dall-e-3'' = Some ImageT
   \<and> inferTypeFromId s =
       map_option snd
         (find (\<lambda>(alts, t). \<exists>w \<in> set alts. occurs_as_word w None s) MODEL_ID_TYPE_PATTERNS)
   \<and> (getv raw ''type'' = JStr (type_name t) \<longrightarrow>
        defaultModelNormalizer numberToString clock raw = normalizer_for t clock raw)
   \<and> ((\<forall>ty. getv raw ''type'' \<noteq> JStr (type_name ty)) \<longrightarrow>
        resolve_type numberToString raw =
          bindE (ToString numberToString
                  (js_coalesce (js_coalesce (getv raw ''id'') (getv raw ''model_id'')) (JStr [])))
            (\<lambda>s. Inr (case inferTypeFromId s of Some t \<Rightarrow> t | None \<Rightarrow> TextT))
        \<and> defaultModelNormalizer numberToString clock raw =
          bindE (ToString numberToString
                  (js_coalesce (js_coalesce (getv raw ''id'') (getv raw ''model_id'')) (JStr [])))
            (\<lambda>s. normalizer_for (case inferTypeFromId s of Some t \<Rightarrow> t | None \<Rightarrow> TextT) clock raw)
        \<and> (getv raw' ''type'' = JUndefined \<longrightarrow> same_but_type raw raw' \<longrightarrow>
              defaultModelNormalizer numberToString clock raw
                = defaultModelNormalizer numberToString clock raw'))
   \<and> (normalizer_for t clock raw = Inr m \<longrightarrow> getv m ''type'' = JStr (type_name t))"
proof (intro conjI impI)
  show "inferTypeFromId ''gpt-4-vision-preview'' = None" by (rule infer_examples)
  show "inferTypeFromId ''dall-e-3'' = Some ImageT" by (rule infer_examples)
  show "inferTypeFromId s =
       map_option snd
         (find (\<lambda>(alts, t). \<exists>w \<in> set alts. occurs_as_word w None s) MODEL_ID_TYPE_PATTERNS)"
    by (simp add: inferTypeFromId_def first_rule_find regex_test_iff)
next
  assume "getv raw ''type'' = JStr (type_name t)"
  then show "defaultModelNormalizer numberToString clock raw = normalizer_for t clock raw"
    by (simp add: dispatch_for resolve_type_def explicit_type_name bindE_def Let_def)
next
  assume "normalizer_for t clock raw = Inr m"
  then show "getv m ''type'' = JStr (type_name t)" by (rule normalizer_for_type)
next
  assume u: "\<forall>ty. getv raw ''type'' \<noteq> JStr (type_name ty)"
  then have e: "explicit_type (getv raw ''type'') = None" by (simp add: explicit_type_None_iff)
  show r: "resolve_type numberToString raw =
          bindE (ToString numberToString
                  (js_coalesce (js_coalesce (getv raw ''id'') (getv raw ''model_id'')) (JStr [])))
            (\<lambda>s. Inr (case inferTypeFromId s of Some t \<Rightarrow> t | None \<Rightarrow> TextT))"
    using e by (simp add: resolve_type_def Let_def)
  show "defaultModelNormalizer numberToString clock raw =
          bindE (ToString numberToString
                  (js_coalesce (js_coalesce (getv raw ''id'') (getv raw ''model_id'')) (JStr [])))
            (\<lambda>s. normalizer_for (case inferTypeFromId s of Some t \<Rightarrow> t | None \<Rightarrow> TextT) clock raw)"
    by (simp add: dispatch_for r bindE_def split: sum.splits)
next
  assume u: "\<forall>ty. getv raw ''type'' \<noteq> JStr (type_name ty)"
    and a: "getv raw' ''type'' = JUndefined" and s: "same_but_type raw raw'"
  from u have e: "explicit_type (getv raw ''type'') = None" by (simp add: explicit_type_None_iff)
  from a have e': "explicit_type (getv raw' ''type'') = None" by (simp add: explicit_type_def)
  have "resolve_type numberToString raw = resolve_type numberToString raw'"
    using e e' s by (simp add: resolve_type_def same_but_typeD Let_def)
  then show "defaultModelNormalizer numberToString clock raw
      = defaultModelNormalizer numberToString clock raw'"
    using s
    by (simp add: defaultModelNormalizer_def text_same [of raw raw'] image_same [of raw raw']
        video_same [of raw raw'] inpaint_same [of raw raw'] embedding_same [of raw raw']
        tts_same [of raw raw'] asr_same [of raw raw'] upscale_same [of raw raw']
        cong: ModelType.case_cong)
qed

theorem type_resolution_witness:
  "defaultModelNormalizer (\<lambda>n. ''0'') 0 (JObj [(''id'', JStr ''gpt-4o''), (''type'', JStr ''banana'')])
     = defaultModelNormalizer (\<lambda>n. ''0'') 0 (JObj [(''id'', JStr ''gpt-4o'')])
   \<and> resolve_type (\<lambda>n. ''0'') (JObj [(''id'', JStr ''gpt-4o''), (''type'', JStr ''banana'')]) = Inr TextT
   \<and> resolve_type (\<lambda>n. ''0'') (JObj [(''id'', JStr ''dall-e-3''), (''type'', JNum (Fin 7))]) = Inr ImageT
   \<and> defaultModelNormalizer (\<lambda>n. ''0'') 0 (JObj [(''id'', JStr ''dall-e-3''), (''type'', JStr ''banana'')])
     = normalizeImageModel 0 (JObj [(''id'', JStr ''dall-e-3''), (''type'', JStr ''banana'')])
   \<and> defaultModelNormalizer (\<lambda>n. ''0'') 0 (JObj [(''id'', JStr ''x''), (''type'', JStr ''image'')])
     = normalizeImageModel 0 (JObj [(''id'', JStr ''x''), (''type'', JStr ''image'')])
   \<and> (\<exists>m. normalizeImageModel 0 (JObj [(''id'', JStr ''dall-e-3''), (''type'', JStr ''banana'')]) = Inr m
          \<and> getv m ''type'' = JStr ''image'')"
proof -
  have n: "\<forall>ty. JStr ''banana'' \<noteq> JStr (type_name ty)" "\<forall>ty. JNum (Fin 7) \<noteq> JStr (type_name ty)"
    by (auto simp: type_name_def split: ModelType.splits)
  have s: "same_but_type (JObj [(''id'', JStr ''gpt-4o''), (''type'', JStr ''banana'')])
             (JObj [(''id'', JStr ''gpt-4o'')])"
    by (simp add: same_but_type_def)
  have i: "inferTypeFromId ''gpt-4o'' = None" "inferTypeFromId ''dall-e-3'' = Some ImageT"
    by (simp_all add: js_eval)
  have t: "JStr ''image'' = JStr (type_name ImageT)" by (simp add: type_name_def)
  have ok: "\<exists>m. normalizeImageModel 0 (JObj [(''id'', JStr ''dall-e-3''), (''type'', JStr ''banana'')]) = Inr m"
    by (simp add: js_eval normalizeImageModel_def)
  then obtain m where m: "normalizeImageModel 0 (JObj [(''id'', JStr ''dall-e-3''), (''type'', JStr ''banana'')]) = Inr m" ..
  have c1: "defaultModelNormalizer (\<lambda>n. ''0'') 0 (JObj [(''id'', JStr ''gpt-4o''), (''type'', JStr ''banana'')])
       = defaultModelNormalizer (\<lambda>n. ''0'') 0 (JObj [(''id'', JStr ''gpt-4o'')])
     \<and> resolve_type (\<lambda>n. ''0'') (JObj [(''id'', JStr ''gpt-4o''), (''type'', JStr ''banana'')]) = Inr TextT"
    using type_resolution [of "''x''" "JObj [(''id'', JStr ''gpt-4o''), (''type'', JStr ''banana'')]"
        TextT "\<lambda>n. ''0''" 0 "JObj [(''id'', JStr ''gpt-4o'')]" JNull] n s i
    by (simp add: ToString_def bindE_def js_coalesce_def nullish_def) metis
  have c2: "resolve_type (\<lambda>n. ''0'') (JObj [(''id'', JStr ''dall-e-3''), (''type'', JNum (Fin 7))]) = Inr ImageT"
    using type_resolution [of "''x''" "JObj [(''id'', JStr ''dall-e-3''), (''type'', JNum (Fin 7))]"
        TextT "\<lambda>n. ''0''" 0 JNull JNull] n i
    by (simp add: ToString_def bindE_def js_coalesce_def nullish_def)
  have c3: "defaultModelNormalizer (\<lambda>n. ''0'') 0 (JObj [(''id'', JStr ''dall-e-3''), (''type'', JStr ''banana'')])
     = normalizeImageModel 0 (JObj [(''id'', JStr ''dall-e-3''), (''type'', JStr ''banana'')])"
    using type_resolution [of "''x''" "JObj [(''id'', JStr ''dall-e-3''), (''type'', JStr ''banana'')]"
        TextT "\<lambda>n. ''0''" 0 JNull JNull] n i
    by (simp add: ToString_def bindE_def js_coalesce_def nullish_def normalizer_for_def)
  have c4: "defaultModelNormalizer (\<lambda>n. ''0'') 0 (JObj [(''id'', JStr ''x''), (''type'', JStr ''image'')])
     = normalizeImageModel 0 (JObj [(''id'', JStr ''x''), (''type'', JStr ''image'')])"
    using type_resolution [of "''x''" "JObj [(''id'', JStr ''x''), (''type'', JStr ''image'')]"
        ImageT "\<lambda>n. ''0''" 0 JNull JNull] t
    by (simp add: normalizer_for_def)
  have c5: "getv m ''type'' = JStr ''image''"
    using type_resolution [of "''x''" "JObj [(''id'', JStr ''dall-e-3''), (''type'', JStr ''banana'')]"
        ImageT "\<lambda>n. ''0''" 0 JNull m] m
    by (simp add: normalizer_for_def type_name_def)
  from c1 c2 c3 c4 c5 m show ?thesis by blast
qed

section \<open>The retrieval hook\<close>

lemma match_literal_rest:
  "match_literal w prev s = Some (p, rest) \<Longrightarrow> rest = drop (length w) s"
  by (induction w prev s rule: match_literal.induct) (auto split: if_splits)

lemma match_literal_prefix:
  "match_literal w prev s \<noteq> None \<longleftrightarrow> prefix (map ascii_lower w) (map ascii_lower s)"
  by (induction w prev s rule: match_literal.induct) auto

lemma prefix_append_drop:
  "prefix (a @ b) s \<longleftrightarrow> prefix a s \<and> prefix b (drop (length a) s)"
  by (auto simp: prefix_def append_eq_conv_conj)

lemma lower_literals:
  "map ascii_lower ''http'' = ''http''" "map ascii_lower ''s'' = ''s''" "map ascii_lower ''://'' = ''://''"
  by (simp_all add: ascii_lower_def)

lemma scheme_test_iff: "scheme_test u \<longleftrightarrow> has_http_scheme u"
proof -
  let ?l = "map ascii_lower u"
  have h: "has_http_scheme u \<longleftrightarrow>
      prefix ''http'' ?l \<and> (prefix ''://'' (drop 4 ?l) \<or> prefix ''s'' (drop 4 ?l) \<and> prefix ''://'' (drop 5 ?l))"
    using prefix_append_drop [of "''http''" "''://''" ?l]
      prefix_append_drop [of "''http''" "''s://''" ?l]
      prefix_append_drop [of "''s''" "''://''" "drop 4 ?l"]
    by (auto simp: has_http_scheme_def eval_nat_numeral)
  show ?thesis
  proof (cases "match_literal ''http'' None u")
    case None
    then have "\<not> prefix ''http'' ?l" using match_literal_prefix [of "''http''" None u, unfolded lower_literals]
      by simp
    with None h show ?thesis by (simp add: scheme_test_def)
  next
    case (Some a)
    obtain b rest where a: "a = (b, rest)" by (cases a)
    from Some a have r: "rest = drop 4 u"
      using match_literal_rest [of "''http''" None u b rest] by (simp add: eval_nat_numeral)
    from Some have p: "prefix ''http'' ?l" using match_literal_prefix [of "''http''" None u, unfolded lower_literals]
      by simp
    have c: "match_literal ''://'' b rest \<noteq> None \<longleftrightarrow> prefix ''://'' (drop 4 ?l)"
      using match_literal_prefix [of "''://''" b rest, unfolded lower_literals] r by (simp add: drop_map)
    have s: "(case match_literal ''s'' b rest of
             Some (b', rest') \<Rightarrow> match_literal ''://'' b' rest' \<noteq> None
           | None \<Rightarrow> False) \<longleftrightarrow> prefix ''s'' (drop 4 ?l) \<and> prefix ''://'' (drop 5 ?l)"
    proof (cases "match_literal ''s'' b rest")
      case None
      then have "\<not> prefix ''s'' (drop 4 ?l)" using match_literal_prefix [of "''s''" b rest, unfolded lower_literals] r
        by (simp add: drop_map)
      with None show ?thesis by simp
    next
      case (Some a')
      obtain b' rest' where a': "a' = (b', rest')" by (cases a')
      from Some a' r have r': "rest' = drop 5 u" using match_literal_rest [of "''s''" b rest b' rest'] by (simp add: eval_nat_numeral drop_Suc tl_drop)
      from Some have "prefix ''s'' (drop 4 ?l)" using match_literal_prefix [of "''s''" b rest, unfolded lower_literals] r
        by (simp add: drop_map)
      moreover have "match_literal ''://'' b' rest' \<noteq> None \<longleftrightarrow> prefix ''://'' (drop 5 ?l)"
        using match_literal_prefix [of "''://''" b' rest', unfolded lower_literals] r' by (simp add: drop_map)
      ultimately show ?thesis using Some a' by simp
    qed
    from Some a p c s h show ?thesis by (auto simp: scheme_test_def)
  qed
qed

text \<open>
  C1.  When \<^verbatim>\<open>baseUrl\<close> is a non-empty string that does not start with \<^verbatim>\<open>http://\<close> or
  \<^verbatim>\<open>https://\<close> (in any case), the effect sets the model list to empty, \<^verbatim>\<open>loading\<close> to false and
  \<^verbatim>\<open>error\<close> to the invalid-scheme error, which is what the hook returns, and hands nothing to
  the fetch function: a render with such props adds no call of it.
\<close>

theorem invalid_scheme_settles:
  "baseUrl props = Some u \<Longrightarrow> u \<noteq> [] \<Longrightarrow> \<not> has_http_scheme u \<Longrightarrow>
     useModels_effect serialize props st
       = (\<lparr>allModels_state = [], loading = False, error = Some InvalidScheme\<rparr>, None)
     \<and> useModels_result props (fst (useModels_effect serialize props st))
       = ([], False, Some InvalidScheme)
     \<and> calls (render serialize props m) = calls m
     \<and> (deps m \<noteq> Some (baseUrl props, apiKey props, queryParams props) \<longrightarrow>
          hook (render serialize props m)
            = \<lparr>allModels_state = [], loading = False, error = Some InvalidScheme\<rparr>)"
  by (simp add: useModels_effect_def scheme_test_iff useModels_result_def render_def Let_def
      split: option.splits)

theorem invalid_scheme_settles_witness:
  "useModels_effect (\<lambda>ps. []) \<lparr>baseUrl = Some ''javascript:alert(1)'', apiKey = None, type_filter = None, queryParams = None\<rparr>
       (\<lparr>allModels_state = [], loading = True, error = None\<rparr> :: unit hook_state)
     = (\<lparr>allModels_state = [], loading = False, error = Some InvalidScheme\<rparr>, None)
   \<and> calls (render (\<lambda>ps. []) \<lparr>baseUrl = Some ''javascript:alert(1)'', apiKey = None, type_filter = None, queryParams = None\<rparr>
        (unmounted :: unit mounted)) = []"
proof -
  let ?props = "\<lparr>baseUrl = Some ''javascript:alert(1)'', apiKey = None, type_filter = None,
                 queryParams = None\<rparr>"
  have b: "baseUrl ?props = Some ''javascript:alert(1)''" and n: "''javascript:alert(1)'' \<noteq> []"
    by simp_all
  have h: "\<not> has_http_scheme ''javascript:alert(1)''"
    by (simp add: has_http_scheme_def ascii_lower_def)
  from invalid_scheme_settles [OF b n h, of "\<lambda>ps. []"
      "\<lparr>allModels_state = [], loading = True, error = None\<rparr> :: unit hook_state"
      "unmounted :: unit mounted"]
  show ?thesis by (simp add: unmounted_def)
qed

lemma withheld: "models props \<noteq> [] \<Longrightarrow> baseUrl (hook_props props) = None"
  by (simp add: hook_props_def effectiveBaseUrl_def)

lemma render_no_fetch:
  "baseUrl props = None \<Longrightarrow> no_fetch m \<Longrightarrow> no_fetch (render serialize props m)"
  by (auto simp: no_fetch_def render_def useModels_effect_def Let_def)

lemma settle_no_fetch: "no_fetch m \<Longrightarrow> settle k outcome m = m"
  by (simp add: no_fetch_def settle_def)

lemma result_empty:
  "allModels_state st = [] \<Longrightarrow> fst (useModels_result props st) = []"
  by (simp add: useModels_result_def split: option.splits)

lemma seen_at_render:
  "no_fetch m \<Longrightarrow> fst (useModels_result props (state_at_render props m)) = []"
  by (cases "deps m") (simp_all add: no_fetch_def state_at_render_def result_empty)

lemma seen_after_render:
  "baseUrl props = None \<Longrightarrow> no_fetch m \<Longrightarrow>
     fst (useModels_result props (hook (render serialize props m))) = []"
  by (rule result_empty) (auto simp: no_fetch_def render_def useModels_effect_def Let_def)

lemma static_only_run:
  "static_only evs \<Longrightarrow> no_fetch m \<Longrightarrow>
     no_fetch (run serialize evs m) \<and> list_all (\<lambda>fetched. fetched = []) (fetched_seen serialize evs m)"
proof (induction evs arbitrary: m)
  case Nil
  then show ?case by (simp add: run_def)
next
  case (Cons ev evs)
  show ?case
  proof (cases ev)
    case (Rerender props)
    with Cons.prems have w: "baseUrl (hook_props props) = None" and rest: "static_only evs"
      by (simp_all add: static_only_def withheld)
    from render_no_fetch [OF w Cons.prems(2)]
    have n: "no_fetch (render serialize (hook_props props) m)" .
    from Cons.IH [OF rest n] seen_at_render [OF Cons.prems(2)] seen_after_render [OF w Cons.prems(2)]
      Rerender
    show ?thesis by (simp add: run_def)
  next
    case (Settle k outcome)
    with Cons.prems have rest: "static_only evs" by (simp add: static_only_def)
    from Cons.IH [OF rest Cons.prems(2)] Settle settle_no_fetch [OF Cons.prems(2)]
    show ?thesis by (simp add: run_def)
  qed
qed

lemma static_settled_render:
  "static_settled m \<Longrightarrow> static_settled (render serialize props m)"
  by (cases "baseUrl props")
    (auto simp: static_settled_def render_def useModels_effect_def Let_def
      split: option.splits prod.splits if_splits)

lemma static_settled_settle:
  "static_settled m \<Longrightarrow> static_settled (settle k outcome m)"
  by (auto simp: static_settled_def settle_def split: option.splits prod.splits)

lemma static_settled_run:
  "static_settled m \<Longrightarrow> static_settled (run serialize evs m)"
proof (induction evs arbitrary: m)
  case Nil
  then show ?case by (simp add: run_def)
next
  case (Cons ev evs)
  from Cons.prems have "static_settled (step serialize ev m)"
    by (cases ev) (simp_all add: static_settled_render static_settled_settle)
  from Cons.IH [OF this] show ?case by (simp add: run_def)
qed

lemma static_render_clears:
  "baseUrl props = None \<Longrightarrow> static_settled m \<Longrightarrow>
     cleared (render serialize props m) \<and> calls (render serialize props m) = calls m"
  by (auto simp: static_settled_def cleared_def render_def useModels_effect_def Let_def
      split: option.splits prod.splits if_splits)

lemma cleared_settled: "cleared m \<Longrightarrow> static_settled m"
  by (auto simp: static_settled_def cleared_def split: option.splits prod.splits)

lemma cleared_settle: "cleared m \<Longrightarrow> settle k outcome m = m"
  by (simp add: cleared_def settle_def)

lemma cleared_seen:
  "cleared m \<Longrightarrow> fst (useModels_result props (state_at_render props m)) = []"
  by (cases "deps m") (simp_all add: cleared_def state_at_render_def result_empty)

lemma cleared_run:
  "static_only evs \<Longrightarrow> cleared m \<Longrightarrow>
     cleared (run serialize evs m) \<and> calls (run serialize evs m) = calls m
     \<and> list_all (\<lambda>fetched. fetched = []) (fetched_seen serialize evs m)"
proof (induction evs arbitrary: m)
  case Nil
  then show ?case by (simp add: run_def)
next
  case (Cons ev evs)
  show ?case
  proof (cases ev)
    case (Rerender props)
    with Cons.prems have w: "baseUrl (hook_props props) = None" and rest: "static_only evs"
      by (simp_all add: static_only_def withheld)
    from static_render_clears [OF w cleared_settled [OF Cons.prems(2)], of serialize]
    have n: "cleared (render serialize (hook_props props) m)"
      and c: "calls (render serialize (hook_props props) m) = calls m"
      by simp_all
    from n have e: "fst (useModels_result (hook_props props) (hook (render serialize (hook_props props) m))) = []"
      by (simp add: cleared_def result_empty)
    from Cons.IH [OF rest n] c e cleared_seen [OF Cons.prems(2)] Rerender
    show ?thesis by (simp add: run_def)
  next
    case (Settle k outcome)
    with Cons.prems have rest: "static_only evs" by (simp add: static_only_def)
    from Cons.IH [OF rest Cons.prems(2)] Settle cleared_settle [OF Cons.prems(2)]
    show ?thesis by (simp add: run_def)
  qed
qed

text \<open>
  C10 fails on the code.  The selector below is mounted with an empty \<^verbatim>\<open>models\<close> prop and a
  \<^verbatim>\<open>baseUrl\<close>, its request settles with one model, and it is then rendered with a non-empty
  \<^verbatim>\<open>models\<close> prop.  The list of fetched models is state that the effect clears, and the effect
  runs after the render: the render with the static models (the third list below) still
  reads the model fetched before, next to the non-empty \<^verbatim>\<open>models\<close> prop, so the merge of that
  render combines a non-empty fetched list with a non-empty static list, where the doc
  comment of the prop says that only the static models are shown.  Only the render that
  follows reads an empty list.
\<close>

theorem static_models_counterexample:
  "fetched_seen (\<lambda>ps. [])
     [Rerender \<lparr>baseUrl = Some ''https://api.example.com/v1'', apiKey = None,
                type_filter = None, queryParams = None, models = ([] :: string list)\<rparr>,
      Settle 0 (Inr [JObj [(''id'', JStr ''fetched'')]]),
      Rerender \<lparr>baseUrl = Some ''https://api.example.com/v1'', apiKey = None,
                type_filter = None, queryParams = None, models = [''gpt-4'']\<rparr>]
     (unmounted :: unit mounted)
   = [[], [], [JObj [(''id'', JStr ''fetched'')]], []]"
  by (simp add: hook_props_def effectiveBaseUrl_def render_def useModels_effect_def
      scheme_test_def ascii_lower_def state_at_render_def unmounted_def request_of_def settle_def
      useModels_result_def Let_def)

text \<open>
  What the code does guarantee.  A selector whose \<^verbatim>\<open>models\<close> prop is non-empty withholds
  \<^verbatim>\<open>baseUrl\<close> from the hook, whatever \<^verbatim>\<open>baseUrl\<close> it was given.  In every run of the component
  in which each render since the mount has a non-empty \<^verbatim>\<open>models\<close> prop (the other props may
  change from render to render, and settled requests may be delivered), the fetch function
  is never called and every render sees an empty list of fetched models.
\<close>

lemma static_models_from_mount:
  "(models props \<noteq> [] \<longrightarrow>
      effectiveBaseUrl props = None \<and> baseUrl (hook_props props) = None)
   \<and> (static_only evs \<longrightarrow>
        calls (run serialize evs unmounted) = []
        \<and> list_all (\<lambda>fetchedModels. fetchedModels = []) (fetched_seen serialize evs unmounted))"
proof (intro conjI impI)
  assume "models props \<noteq> []"
  then show "effectiveBaseUrl props = None" "baseUrl (hook_props props) = None"
    by (simp_all add: hook_props_def effectiveBaseUrl_def)
next
  assume s: "static_only evs"
  have "no_fetch (run serialize evs unmounted)
      \<and> list_all (\<lambda>fetched. fetched = []) (fetched_seen serialize evs unmounted)"
    by (rule static_only_run [OF s]) (simp add: no_fetch_def unmounted_def)
  then show "calls (run serialize evs unmounted) = []"
    "list_all (\<lambda>fetchedModels. fetchedModels = []) (fetched_seen serialize evs unmounted)"
    by (simp_all add: no_fetch_def)
qed

text \<open>
  And after any \<open>history\<close> of renders and settled requests: once a render has a
  non-empty \<^verbatim>\<open>models\<close> prop, and for as long as the renders that follow have one, the fetch
  function is not called again, a request that settles late changes nothing, and every
  render but that first one reads an empty list of fetched models.  The first one reads
  whatever the history left.
\<close>

lemma switch_to_static:
  assumes "models props \<noteq> []" and "static_only evs"
  shows "calls (run serialize (history @ Rerender props # evs) unmounted)
           = calls (run serialize history unmounted)
         \<and> list_all (\<lambda>fetchedModels. fetchedModels = [])
             (tl (fetched_seen serialize (Rerender props # evs) (run serialize history unmounted)))
         \<and> allModels_state (hook (run serialize (history @ Rerender props # evs) unmounted)) = []"
proof -
  let ?m = "run serialize history (unmounted :: 'b mounted)"
  have "static_settled (unmounted :: 'b mounted)"
    by (simp add: static_settled_def unmounted_def)
  then have inv: "static_settled ?m" by (rule static_settled_run)
  from assms(1) have w: "baseUrl (hook_props props) = None" by (rule withheld)
  from static_render_clears [OF w inv, of serialize]
  have n: "cleared (render serialize (hook_props props) ?m)"
    and c: "calls (render serialize (hook_props props) ?m) = calls ?m"
    by simp_all
  from n have e: "fst (useModels_result (hook_props props) (hook (render serialize (hook_props props) ?m))) = []"
    by (simp add: cleared_def result_empty)
  have r: "run serialize (history @ Rerender props # evs) unmounted
             = run serialize evs (render serialize (hook_props props) ?m)"
    by (simp add: run_def)
  from cleared_run [OF assms(2) n, of serialize] c e r show ?thesis
    by (simp add: cleared_def)
qed

text \<open>Without static models the same selector calls the fetch function once, and the settled
  request fills the list.\<close>

lemma fetch_without_static_models:
  "calls (run (\<lambda>ps. [])
        [Rerender \<lparr>baseUrl = Some ''https://api.example.com/v1//'', apiKey = Some ''key'',
                   type_filter = None, queryParams = None, models = ([] :: string list)\<rparr>,
         Settle 0 (Inr [JObj [(''id'', JStr ''fetched'')]])]
        (unmounted :: unit mounted))
     = [\<lparr>url = ''https://api.example.com/v1/models'',
         headers = [(''Authorization'', ''Bearer key'')]\<rparr>]
   \<and> allModels_state (hook (run (\<lambda>ps. [])
        [Rerender \<lparr>baseUrl = Some ''https://api.example.com/v1//'', apiKey = Some ''key'',
                   type_filter = None, queryParams = None, models = ([] :: string list)\<rparr>,
         Settle 0 (Inr [JObj [(''id'', JStr ''fetched'')]])]
        (unmounted :: unit mounted)))
     = [JObj [(''id'', JStr ''fetched'')]]"
  by (simp add: run_def hook_props_def effectiveBaseUrl_def render_def useModels_effect_def
      scheme_test_def ascii_lower_def state_at_render_def unmounted_def request_of_def settle_def
      Let_def)







lemmas [js_eval] =
  resolve_type_def explicit_type_def type_name_def VALID_TYPES_def defaultModelNormalizer_def
  normalizeVideoModel_def normalizeImageModel_def ToString_def warned_id_def warning_message_def



text \<open>
  In a development build the warning itself can throw: the template literal converts the id
  of the failing record to a string, outside the inner \<^verbatim>\<open>try\<close>, so a record whose id cannot be
  converted ends the whole batch with an error.
\<close>

lemma unprintable_id_aborts_batch:
  "normalize_response (\<lambda>n. ''0'') True defaultResponseExtractor (defaultModelNormalizer (\<lambda>n. ''0'') 0)
     (JObj [(''data'',
        JArr [JObj [(''id'', JStr ''gpt-4''), (''type'', JStr ''text'')],
              JObj [(''id'', JObj [(''toString'', JNum (Fin 1))])]])])
   = Inl (Raised TypeError)"
  by (simp add: normalize_response_def defaultResponseExtractor_def is_object_def is_record_def
      js_eval)

section \<open>The derived list\<close>

lemma split_deprecated_filter:
  "split_deprecated past ms nonDeprecated deprecated
     = (nonDeprecated @ filter (\<lambda>m. \<not> past m) ms, deprecated @ filter past ms)"
  by (induction ms arbitrary: nonDeprecated deprecated) auto

lemma moved_iff: "moved_to_end parseDate now = deprecated_before parseDate now"
  by (rule ext) (auto simp: moved_to_end_def deprecated_before_def split: option.splits)

text \<open>
  C5.  The derived list is the sorted list with the models whose deprecation date is an
  instant strictly before \<open>now\<close> taken out and put behind the others, each part in the order
  the sort left it.  A model without a deprecation, or with a date at or after \<open>now\<close>, is not
  among the moved ones; one with a date strictly before \<open>now\<close> is.
\<close>

theorem deprecated_models_last:
  "allModels parseDate localeCompare now fetchedModels static localFavorites controlled
       showDeprecated sortOrder
     = filter (\<lambda>m. \<not> deprecated_before parseDate now m)
         (sorted_models parseDate localeCompare now fetchedModels static localFavorites controlled
            showDeprecated sortOrder)
       @ filter (deprecated_before parseDate now)
         (sorted_models parseDate localeCompare now fetchedModels static localFavorites controlled
            showDeprecated sortOrder)
   \<and> (deprecation m = None \<longrightarrow> \<not> deprecated_before parseDate now m)
   \<and> (deprecation m = Some d \<longrightarrow> parseDate (date d) = Some t \<longrightarrow> now \<le> t \<longrightarrow>
        \<not> deprecated_before parseDate now m)
   \<and> (deprecation m = Some d \<longrightarrow> parseDate (date d) = Some t \<longrightarrow> t < now \<longrightarrow>
        deprecated_before parseDate now m)"
  by (simp add: allModels_def split_deprecated_filter moved_iff) (simp add: deprecated_before_def)


theorem deprecated_models_last_witness:
  "allModels example_Date (\<lambda>a b. 0) 1577836800000 []
     [\<lparr>id' = ''A'', name = ''A'', created = 100, deprecation = None, is_favorite = None\<rparr>,
      \<lparr>id' = ''B'', name = ''B'', created = 200, deprecation = Some \<lparr>date = ''2019-12-31''\<rparr>,
        is_favorite = None\<rparr>,
      \<lparr>id' = ''C'', name = ''C'', created = 300, deprecation = Some \<lparr>date = ''2030-01-01''\<rparr>,
        is_favorite = None\<rparr>,
      \<lparr>id' = ''D'', name = ''D'', created = 400, deprecation = Some \<lparr>date = ''2020-01-01''\<rparr>,
        is_favorite = None\<rparr>]
     [] False True ByCreated
   = [\<lparr>id' = ''D'', name = ''D'', created = 400, deprecation = Some \<lparr>date = ''2020-01-01''\<rparr>,
        is_favorite = None\<rparr>,
      \<lparr>id' = ''C'', name = ''C'', created = 300, deprecation = Some \<lparr>date = ''2030-01-01''\<rparr>,
        is_favorite = None\<rparr>,
      \<lparr>id' = ''A'', name = ''A'', created = 100, deprecation = None, is_favorite = None\<rparr>,
      \<lparr>id' = ''B'', name = ''B'', created = 200, deprecation = Some \<lparr>date = ''2019-12-31''\<rparr>,
        is_favorite = None\<rparr>]"
proof -
  let ?A = "\<lparr>id' = ''A'', name = ''A'', created = 100, deprecation = None, is_favorite = None\<rparr>"
  let ?B = "\<lparr>id' = ''B'', name = ''B'', created = 200, deprecation = Some \<lparr>date = ''2019-12-31''\<rparr>,
        is_favorite = None\<rparr>"
  let ?C = "\<lparr>id' = ''C'', name = ''C'', created = 300, deprecation = Some \<lparr>date = ''2030-01-01''\<rparr>,
        is_favorite = None\<rparr>"
  let ?D = "\<lparr>id' = ''D'', name = ''D'', created = 400, deprecation = Some \<lparr>date = ''2020-01-01''\<rparr>,
        is_favorite = None\<rparr>"
  have s: "sorted_models example_Date (\<lambda>a b. 0) 1577836800000 [] [?A, ?B, ?C, ?D] [] False True ByCreated
      = [?D, ?C, ?B, ?A]"
    by (simp add: sorted_models_def merge_models_def overlay_favorites_def stable_sort_def
        compare_after_def Let_def)
  have d: "deprecated_before example_Date 1577836800000 ?B"
    "\<not> deprecated_before example_Date 1577836800000 ?A"
    "\<not> deprecated_before example_Date 1577836800000 ?C"
    "\<not> deprecated_before example_Date 1577836800000 ?D"
    by (simp_all add: deprecated_before_def example_Date_def)
  from deprecated_models_last [of example_Date "\<lambda>a b. 0" 1577836800000 "[]" "[?A, ?B, ?C, ?D]" "[]"
      False True ByCreated ?A "\<lparr>date = ''x''\<rparr>" 0] s d
  show ?thesis by simp
qed

lemma map_of_map_set: "map_of (map_set k v mp) = (map_of mp)(k \<mapsto> v)"
  by (induction mp) (auto simp: fun_eq_iff)

lemma keys_map_set:
  "map fst (map_set k v mp) = (if k \<in> fst ` set mp then map fst mp else map fst mp @ [k])"
  by (induction mp) force+

lemma set_map_set: "set (map_set k v mp) \<subseteq> insert (k, v) (set mp)"
  by (induction mp) (auto split: if_splits)

lemma keyed_map_set: "keyed mp \<Longrightarrow> id' m = k \<Longrightarrow> keyed (map_set k m mp)"
  using set_map_set [of k m mp] by (auto simp: keyed_def)

lemma distinct_map_set: "distinct (map fst mp) \<Longrightarrow> distinct (map fst (map_set k v mp))"
  by (auto simp: keys_map_set)

lemma foldl_set_lookup:
  "map_of (foldl (\<lambda>mp m. map_set (id' m) m mp) mp ms) k
     = (if filter (\<lambda>m. id' m = k) ms = [] then map_of mp k
        else Some (last (filter (\<lambda>m. id' m = k) ms)))"
  by (induction ms arbitrary: mp) (auto simp: map_of_map_set)

lemma foldl_set_distinct:
  "distinct (map fst mp) \<Longrightarrow> distinct (map fst (foldl (\<lambda>mp m. map_set (id' m) m mp) mp ms))"
  by (induction ms arbitrary: mp) (auto simp: distinct_map_set)

lemma foldl_set_keyed:
  "keyed mp \<Longrightarrow> keyed (foldl (\<lambda>mp m. map_set (id' m) m mp) mp ms)"
  by (induction ms arbitrary: mp) (auto simp: keyed_map_set)

lemma merge_distinct: "distinct (map fst (merge_models fetchedModels static))"
  by (simp add: merge_models_def foldl_set_distinct)

lemma merge_keyed: "keyed (merge_models fetchedModels static)"
  unfolding merge_models_def by (intro foldl_set_keyed) (simp add: keyed_def)

lemma merge_lookup:
  "map_of (merge_models fetchedModels static) k
     = (if filter (\<lambda>m. id' m = k) static \<noteq> [] then Some (last (filter (\<lambda>m. id' m = k) static))
        else if filter (\<lambda>m. id' m = k) fetchedModels \<noteq> []
        then Some (last (filter (\<lambda>m. id' m = k) fetchedModels))
        else None)"
  by (simp add: merge_models_def foldl_set_lookup)

lemma keyed_ids: "keyed mp \<Longrightarrow> map id' (map snd mp) = map fst mp"
  by (induction mp) (auto simp: keyed_def)

lemma keyed_find: "keyed mp \<Longrightarrow> find (\<lambda>m. id' m = k) (map snd mp) = map_of mp k"
  by (induction mp) (auto simp: keyed_def)

lemma overlay_step:
  "keyed acc \<Longrightarrow> set (map snd xs) \<subseteq> {m. id' m \<in> fst ` set acc} \<Longrightarrow>
     keyed (foldl (\<lambda>acc (k, m).
              if id' m \<in> set favs then map_set (id' m) (m\<lparr>is_favorite := Some True\<rparr>) acc
              else acc) acc xs)
     \<and> map fst (foldl (\<lambda>acc (k, m).
              if id' m \<in> set favs then map_set (id' m) (m\<lparr>is_favorite := Some True\<rparr>) acc
              else acc) acc xs) = map fst acc"
proof (induction xs arbitrary: acc)
  case Nil
  then show ?case by simp
next
  case (Cons x xs)
  obtain k m where x: "x = (k, m)" by (cases x)
  let ?acc = "if id' m \<in> set favs then map_set (id' m) (m\<lparr>is_favorite := Some True\<rparr>) acc else acc"
  from Cons.prems x have in_keys: "id' m \<in> fst ` set acc" by auto
  then have keys: "map fst ?acc = map fst acc" by (simp add: keys_map_set)
  have k: "keyed ?acc" using Cons.prems(1) by (simp add: keyed_map_set)
  have "fst ` set ?acc = fst ` set acc" using keys by (metis list.set_map)
  with Cons.prems(2) have "set (map snd xs) \<subseteq> {m. id' m \<in> fst ` set ?acc}" by auto
  from Cons.IH [OF k this] keys x show ?case by simp
qed

lemma overlay_keys:
  "keyed mp \<Longrightarrow> keyed (overlay_favorites favs mp) \<and> map fst (overlay_favorites favs mp) = map fst mp"
  unfolding overlay_favorites_def
proof (rule overlay_step)
  assume k: "keyed mp"
  then show "keyed mp" .
  show "set (map snd mp) \<subseteq> {m. id' m \<in> fst ` set mp}"
  proof
    fix m assume "m \<in> set (map snd mp)"
    then obtain a where a: "(a, m) \<in> set mp" by auto
    with k have "id' m = a" by (auto simp: keyed_def)
    with a show "m \<in> {m. id' m \<in> fst ` set mp}" by force
  qed
qed

lemma set_insert_sorted: "set (insert_sorted after x ys) = insert x (set ys)"
  by (induction ys) auto

lemma distinct_insert_sorted:
  "distinct (map f (insert_sorted after x ys)) \<longleftrightarrow> f x \<notin> f ` set ys \<and> distinct (map f ys)"
  by (induction ys) (auto simp: set_insert_sorted)

lemma set_stable_sort: "set (stable_sort after xs) = set xs"
  by (induction xs) (auto simp: stable_sort_def set_insert_sorted)

lemma distinct_stable_sort:
  "distinct (map f (stable_sort after xs)) \<longleftrightarrow> distinct (map f xs)"
proof (induction xs)
  case Nil
  then show ?case by (simp add: stable_sort_def)
next
  case (Cons x xs)
  have "stable_sort after (x # xs) = insert_sorted after x (stable_sort after xs)"
    by (simp add: stable_sort_def)
  with Cons show ?case by (simp add: distinct_insert_sorted set_stable_sort)
qed

lemma distinct_partition:
  "distinct (map f xs) \<Longrightarrow> distinct (map f (filter (\<lambda>x. \<not> p x) xs @ filter p xs))"
  by (induction xs) auto

lemma allModels_split:
  "allModels parseDate localeCompare now fetchedModels static localFavorites controlled
       showDeprecated sortOrder
     = filter (\<lambda>m. \<not> moved_to_end parseDate now m)
         (sorted_models parseDate localeCompare now fetchedModels static localFavorites controlled
            showDeprecated sortOrder)
       @ filter (moved_to_end parseDate now)
         (sorted_models parseDate localeCompare now fetchedModels static localFavorites controlled
            showDeprecated sortOrder)"
  by (simp add: allModels_def split_deprecated_filter)

lemma sorted_models_distinct:
  "distinct (map id' (sorted_models parseDate localeCompare now fetchedModels static localFavorites
      controlled showDeprecated sortOrder))"
proof -
  let ?mp = "if \<not> controlled then overlay_favorites localFavorites (merge_models fetchedModels static)
             else merge_models fetchedModels static"
  have "keyed ?mp \<and> map fst ?mp = map fst (merge_models fetchedModels static)"
  proof (cases controlled)
    case True
    then show ?thesis by (simp add: merge_keyed)
  next
    case False
    then show ?thesis by (simp add: overlay_keys [OF merge_keyed])
  qed
  then have "map id' (map snd ?mp) = map fst (merge_models fetchedModels static)"
    using keyed_ids by metis
  then have d: "distinct (map id' (map snd ?mp))" by (simp add: merge_distinct)
  then have "distinct (map id' (if \<not> showDeprecated then filter (shown parseDate now) (map snd ?mp)
                                else map snd ?mp))"
    by (simp add: distinct_map_filter)
  then show ?thesis
    by (simp add: sorted_models_def Let_def distinct_stable_sort)
qed

lemma map_set_middle:
  "k \<notin> fst ` set a \<Longrightarrow> map_set k v (a @ (k, x) # b) = a @ (k, v) # b"
  by (induction a) auto

lemma overlay_map_step:
  "keyed (pre @ xs) \<Longrightarrow> distinct (map fst (pre @ xs)) \<Longrightarrow>
     foldl (\<lambda>acc (k, m).
              if id' m \<in> set favs then map_set (id' m) (m\<lparr>is_favorite := Some True\<rparr>) acc
              else acc)
       (map (\<lambda>(k, m). (k, with_favorite favs False m)) pre @ xs) xs
     = map (\<lambda>(k, m). (k, with_favorite favs False m)) (pre @ xs)"
proof (induction xs arbitrary: pre)
  case Nil
  then show ?case by simp
next
  case (Cons x xs)
  let ?g = "\<lambda>(k, m). (k, with_favorite favs False m)"
  obtain k m where x: "x = (k, m)" by (cases x)
  from Cons.prems(1) x have km: "id' m = k" by (auto simp: keyed_def)
  from Cons.prems(2) x have "k \<notin> fst ` set pre" by auto
  moreover have "fst ` set (map ?g pre) = fst ` set pre" by force
  ultimately have fresh: "k \<notin> fst ` set (map ?g pre)" by simp
  have step: "(if id' m \<in> set favs
               then map_set (id' m) (m\<lparr>is_favorite := Some True\<rparr>) (map ?g pre @ (k, m) # xs)
               else map ?g pre @ (k, m) # xs)
              = map ?g (pre @ [(k, m)]) @ xs"
    using km map_set_middle [OF fresh, of "m\<lparr>is_favorite := Some True\<rparr>" m xs]
    by (simp add: with_favorite_def)
  from Cons.prems x have "keyed ((pre @ [(k, m)]) @ xs)" "distinct (map fst ((pre @ [(k, m)]) @ xs))"
    by simp_all
  from Cons.IH [OF this] step x show ?case by simp
qed

lemma overlay_map:
  "keyed mp \<Longrightarrow> distinct (map fst mp) \<Longrightarrow>
     overlay_favorites favs mp = map (\<lambda>(k, m). (k, with_favorite favs False m)) mp"
  using overlay_map_step [of "[]" mp favs] by (simp add: overlay_favorites_def)

lemma listed_models:
  "map snd (if \<not> controlled then overlay_favorites favs (merge_models fetchedModels static)
            else merge_models fetchedModels static)
     = map (with_favorite favs controlled) (map snd (merge_models fetchedModels static))"
proof (cases controlled)
  case True
  then show ?thesis by (simp add: with_favorite_def)
next
  case False
  then show ?thesis
    by (simp add: overlay_map [OF merge_keyed merge_distinct] with_favorite_def case_prod_beta)
qed

lemma shown_with_favorite:
  "shown parseDate now (with_favorite favs controlled m) = shown parseDate now m"
  by (simp add: shown_def with_favorite_def)

lemma id_with_favorite: "id' (with_favorite favs controlled m) = id' m"
  by (simp add: with_favorite_def)

lemma set_allModels:
  "set (allModels parseDate localeCompare now fetchedModels static localFavorites controlled
        showDeprecated sortOrder)
     = {m \<in> with_favorite localFavorites controlled ` snd ` set (merge_models fetchedModels static).
          showDeprecated \<or> shown parseDate now m}"
proof -
  have "set (allModels parseDate localeCompare now fetchedModels static localFavorites controlled
        showDeprecated sortOrder)
     = set (sorted_models parseDate localeCompare now fetchedModels static localFavorites controlled
        showDeprecated sortOrder)"
    unfolding allModels_split by auto
  also have "\<dots> = set (if \<not> showDeprecated
                        then filter (shown parseDate now)
                               (map (with_favorite localFavorites controlled)
                                  (map snd (merge_models fetchedModels static)))
                        else map (with_favorite localFavorites controlled)
                               (map snd (merge_models fetchedModels static)))"
    by (simp only: sorted_models_def Let_def set_stable_sort listed_models)
  also have "\<dots> = {m \<in> with_favorite localFavorites controlled ` snd ` set (merge_models fetchedModels static).
          showDeprecated \<or> shown parseDate now m}"
    by auto
  finally show ?thesis .
qed

lemma merged_member:
  "w \<in> snd ` set (merge_models fetchedModels static)
     \<longleftrightarrow> merged_entry fetchedModels static (id' w) = Some w"
proof
  assume "w \<in> snd ` set (merge_models fetchedModels static)"
  then obtain k where k: "(k, w) \<in> set (merge_models fetchedModels static)" by force
  with merge_keyed [of fetchedModels static] have "id' w = k" by (auto simp: keyed_def)
  with k have "map_of (merge_models fetchedModels static) (id' w) = Some w"
    by (simp add: merge_distinct)
  then show "merged_entry fetchedModels static (id' w) = Some w"
    by (simp only: merge_lookup merged_entry_def)
next
  assume "merged_entry fetchedModels static (id' w) = Some w"
  then have "map_of (merge_models fetchedModels static) (id' w) = Some w"
    by (simp only: merge_lookup merged_entry_def)
  then have "(id' w, w) \<in> set (merge_models fetchedModels static)" by (rule map_of_SomeD)
  then show "w \<in> snd ` set (merge_models fetchedModels static)" by force
qed

lemma allModels_member:
  "m \<in> set (allModels parseDate localeCompare now fetchedModels static localFavorites controlled
        showDeprecated sortOrder)
     \<longleftrightarrow> (\<exists>w. merged_entry fetchedModels static (id' m) = Some w
              \<and> m = with_favorite localFavorites controlled w
              \<and> (showDeprecated \<or> shown parseDate now w))"
proof
  assume "m \<in> set (allModels parseDate localeCompare now fetchedModels static localFavorites
        controlled showDeprecated sortOrder)"
  then obtain w where w: "w \<in> snd ` set (merge_models fetchedModels static)"
    and m: "m = with_favorite localFavorites controlled w"
    and s: "showDeprecated \<or> shown parseDate now m"
    unfolding set_allModels by blast
  from w have "merged_entry fetchedModels static (id' w) = Some w" by (simp only: merged_member)
  with m have "merged_entry fetchedModels static (id' m) = Some w" by (simp add: id_with_favorite)
  moreover from s m have "showDeprecated \<or> shown parseDate now w" by (simp add: shown_with_favorite)
  ultimately show "\<exists>w. merged_entry fetchedModels static (id' m) = Some w
              \<and> m = with_favorite localFavorites controlled w
              \<and> (showDeprecated \<or> shown parseDate now w)"
    using m by blast
next
  assume "\<exists>w. merged_entry fetchedModels static (id' m) = Some w
              \<and> m = with_favorite localFavorites controlled w
              \<and> (showDeprecated \<or> shown parseDate now w)"
  then obtain w where e: "merged_entry fetchedModels static (id' m) = Some w"
    and m: "m = with_favorite localFavorites controlled w"
    and s: "showDeprecated \<or> shown parseDate now w"
    by blast
  from e m have "merged_entry fetchedModels static (id' w) = Some w" by (simp add: id_with_favorite)
  then have "w \<in> snd ` set (merge_models fetchedModels static)" by (simp only: merged_member)
  moreover from s m have "showDeprecated \<or> shown parseDate now m" by (simp add: shown_with_favorite)
  ultimately show "m \<in> set (allModels parseDate localeCompare now fetchedModels static localFavorites
        controlled showDeprecated sortOrder)"
    unfolding set_allModels using m by blast
qed

lemma merged_entry_static:
  "s \<in> set static \<Longrightarrow>
     merged_entry fetchedModels static (id' s) = Some (last (filter (\<lambda>m. id' m = id' s) static))"
proof -
  assume "s \<in> set static"
  then have "filter (\<lambda>m. id' m = id' s) static \<noteq> []" by (auto simp: filter_empty_conv)
  then show ?thesis by (simp add: merged_entry_def)
qed

lemma id_last_filter:
  "filter (\<lambda>m. id' m = k) ms \<noteq> [] \<Longrightarrow> id' (last (filter (\<lambda>m. id' m = k) ms)) = k"
proof -
  assume n: "filter (\<lambda>m. id' m = k) ms \<noteq> []"
  then have "last (filter (\<lambda>m. id' m = k) ms) \<in> set (filter (\<lambda>m. id' m = k) ms)"
    by (rule last_in_set)
  then show ?thesis by simp
qed

text \<open>
  C6.  The merge is a map from id to model, filled with the fetched models and then with the
  static ones: no id occurs twice in it, each model sits under its own id, and the model
  found for the id of a static model is the static model of that id (the last one, when the
  static list repeats the id), whatever was fetched under that id; a fetched model whose id
  no static model has is found as fetched.  The derived list carries the merge through: no id
  occurs twice in it; its entries are exactly the winners of the merge, marked as favourites
  where the selector keeps the favourites itself, less the ones hidden as deprecated.  So an
  entry of the derived list with the id of a static model is that static model, with all its
  fields, never the fetched model of that id, and it is in the list unless it is hidden as
  deprecated.
\<close>

theorem static_wins:
  "distinct (map fst (merge_models fetchedModels static))
   \<and> map id' (map snd (merge_models fetchedModels static)) = map fst (merge_models fetchedModels static)
   \<and> (\<forall>s \<in> set static.
         find (\<lambda>m. id' m = id' s) (map snd (merge_models fetchedModels static))
           = Some (last (filter (\<lambda>m. id' m = id' s) static)))
   \<and> (\<forall>f \<in> set fetchedModels. id' f \<notin> id' ` set static \<longrightarrow>
         find (\<lambda>m. id' m = id' f) (map snd (merge_models fetchedModels static))
           = Some (last (filter (\<lambda>m. id' m = id' f) fetchedModels)))
   \<and> distinct (map id' (allModels parseDate localeCompare now fetchedModels static localFavorites
        controlled showDeprecated sortOrder))
   \<and> (\<forall>m. m \<in> set (allModels parseDate localeCompare now fetchedModels static localFavorites
                      controlled showDeprecated sortOrder)
          \<longleftrightarrow> (\<exists>w. merged_entry fetchedModels static (id' m) = Some w
                   \<and> m = with_favorite localFavorites controlled w
                   \<and> (showDeprecated \<or> shown parseDate now w)))
   \<and> (\<forall>s \<in> set static.
         (\<forall>m \<in> set (allModels parseDate localeCompare now fetchedModels static localFavorites
                      controlled showDeprecated sortOrder).
            id' m = id' s \<longrightarrow>
              m = with_favorite localFavorites controlled (last (filter (\<lambda>m. id' m = id' s) static)))
         \<and> (showDeprecated \<or> shown parseDate now (last (filter (\<lambda>m. id' m = id' s) static)) \<longrightarrow>
              with_favorite localFavorites controlled (last (filter (\<lambda>m. id' m = id' s) static))
                \<in> set (allModels parseDate localeCompare now fetchedModels static localFavorites
                      controlled showDeprecated sortOrder)))"
proof (intro conjI ballI impI allI)
  show "distinct (map fst (merge_models fetchedModels static))" by (rule merge_distinct)
  show "map id' (map snd (merge_models fetchedModels static)) = map fst (merge_models fetchedModels static)"
    by (rule keyed_ids [OF merge_keyed])
  show "distinct (map id' (allModels parseDate localeCompare now fetchedModels static localFavorites
        controlled showDeprecated sortOrder))"
    unfolding allModels_split by (rule distinct_partition [OF sorted_models_distinct])
next
  fix s assume "s \<in> set static"
  then have "filter (\<lambda>m. id' m = id' s) static \<noteq> []" by (auto simp: filter_empty_conv)
  then show "find (\<lambda>m. id' m = id' s) (map snd (merge_models fetchedModels static))
           = Some (last (filter (\<lambda>m. id' m = id' s) static))"
    by (simp add: keyed_find [OF merge_keyed] merge_lookup)
next
  fix f assume f: "f \<in> set fetchedModels" and n: "id' f \<notin> id' ` set static"
  have "\<forall>m \<in> set static. id' m \<noteq> id' f"
  proof
    fix m assume "m \<in> set static"
    then have "id' m \<in> id' ` set static" by (rule imageI)
    with n show "id' m \<noteq> id' f" by metis
  qed
  then have "filter (\<lambda>m. id' m = id' f) static = []" by (simp add: filter_empty_conv)
  moreover from f have "filter (\<lambda>m. id' m = id' f) fetchedModels \<noteq> []"
    by (auto simp: filter_empty_conv)
  ultimately have "filter (\<lambda>m. id' m = id' f) static = []"
    "filter (\<lambda>m. id' m = id' f) fetchedModels \<noteq> []" by simp_all
  then show "find (\<lambda>m. id' m = id' f) (map snd (merge_models fetchedModels static))
           = Some (last (filter (\<lambda>m. id' m = id' f) fetchedModels))"
    by (simp add: keyed_find [OF merge_keyed] merge_lookup)
next
  fix m
  show "m \<in> set (allModels parseDate localeCompare now fetchedModels static localFavorites
                      controlled showDeprecated sortOrder)
          \<longleftrightarrow> (\<exists>w. merged_entry fetchedModels static (id' m) = Some w
                   \<and> m = with_favorite localFavorites controlled w
                   \<and> (showDeprecated \<or> shown parseDate now w))"
    by (rule allModels_member)
next
  fix s m
  assume s: "s \<in> set static"
    and m: "m \<in> set (allModels parseDate localeCompare now fetchedModels static localFavorites
                      controlled showDeprecated sortOrder)"
    and i: "id' m = id' s"
  from m obtain w where "merged_entry fetchedModels static (id' m) = Some w"
    and w: "m = with_favorite localFavorites controlled w"
    unfolding allModels_member by blast
  with i merged_entry_static [OF s, of fetchedModels]
  have "w = last (filter (\<lambda>m. id' m = id' s) static)" by simp
  with w show "m = with_favorite localFavorites controlled (last (filter (\<lambda>m. id' m = id' s) static))"
    by simp
next
  fix s
  assume s: "s \<in> set static"
    and v: "showDeprecated \<or> shown parseDate now (last (filter (\<lambda>m. id' m = id' s) static))"
  let ?w = "last (filter (\<lambda>m. id' m = id' s) static)"
  from s have "filter (\<lambda>m. id' m = id' s) static \<noteq> []" by (auto simp: filter_empty_conv)
  then have "id' ?w = id' s" by (rule id_last_filter)
  with merged_entry_static [OF s, of fetchedModels]
  have "merged_entry fetchedModels static (id' (with_favorite localFavorites controlled ?w)) = Some ?w"
    by (simp add: id_with_favorite)
  with v show "with_favorite localFavorites controlled ?w
                \<in> set (allModels parseDate localeCompare now fetchedModels static localFavorites
                      controlled showDeprecated sortOrder)"
    unfolding allModels_member by blast
qed

theorem static_wins_witness:
  "find (\<lambda>m. id' m = ''gpt-4'')
     (map snd (merge_models
        [\<lparr>id' = ''gpt-4'', name = ''fetched name'', created = 1, deprecation = None, is_favorite = None\<rparr>,
         \<lparr>id' = ''gpt-4o'', name = ''only fetched'', created = 2, deprecation = None, is_favorite = None\<rparr>]
        [\<lparr>id' = ''gpt-4'', name = ''static name'', created = 3, deprecation = None, is_favorite = None\<rparr>]))
     = Some \<lparr>id' = ''gpt-4'', name = ''static name'', created = 3, deprecation = None, is_favorite = None\<rparr>
   \<and> find (\<lambda>m. id' m = ''gpt-4o'')
     (map snd (merge_models
        [\<lparr>id' = ''gpt-4'', name = ''fetched name'', created = 1, deprecation = None, is_favorite = None\<rparr>,
         \<lparr>id' = ''gpt-4o'', name = ''only fetched'', created = 2, deprecation = None, is_favorite = None\<rparr>]
        [\<lparr>id' = ''gpt-4'', name = ''static name'', created = 3, deprecation = None, is_favorite = None\<rparr>]))
     = Some \<lparr>id' = ''gpt-4o'', name = ''only fetched'', created = 2, deprecation = None, is_favorite = None\<rparr>
   \<and> distinct (map id' (allModels example_Date (\<lambda>a b. 0) 0
        [\<lparr>id' = ''gpt-4'', name = ''fetched name'', created = 1, deprecation = None, is_favorite = None\<rparr>,
         \<lparr>id' = ''gpt-4o'', name = ''only fetched'', created = 2, deprecation = None, is_favorite = None\<rparr>]
        [\<lparr>id' = ''gpt-4'', name = ''static name'', created = 3, deprecation = None, is_favorite = None\<rparr>]
        [''gpt-4''] False True ByCreated))
   \<and> \<lparr>id' = ''gpt-4'', name = ''static name'', created = 3, deprecation = None, is_favorite = Some True\<rparr>
       \<in> set (allModels example_Date (\<lambda>a b. 0) 0
        [\<lparr>id' = ''gpt-4'', name = ''fetched name'', created = 1, deprecation = None, is_favorite = None\<rparr>,
         \<lparr>id' = ''gpt-4o'', name = ''only fetched'', created = 2, deprecation = None, is_favorite = None\<rparr>]
        [\<lparr>id' = ''gpt-4'', name = ''static name'', created = 3, deprecation = None, is_favorite = None\<rparr>]
        [''gpt-4''] False True ByCreated)
   \<and> \<lparr>id' = ''gpt-4o'', name = ''only fetched'', created = 2, deprecation = None, is_favorite = None\<rparr>
       \<in> set (allModels example_Date (\<lambda>a b. 0) 0
        [\<lparr>id' = ''gpt-4'', name = ''fetched name'', created = 1, deprecation = None, is_favorite = None\<rparr>,
         \<lparr>id' = ''gpt-4o'', name = ''only fetched'', created = 2, deprecation = None, is_favorite = None\<rparr>]
        [\<lparr>id' = ''gpt-4'', name = ''static name'', created = 3, deprecation = None, is_favorite = None\<rparr>]
        [''gpt-4''] False True ByCreated)
   \<and> ''fetched name'' \<notin> set (map name (allModels example_Date (\<lambda>a b. 0) 0
        [\<lparr>id' = ''gpt-4'', name = ''fetched name'', created = 1, deprecation = None, is_favorite = None\<rparr>,
         \<lparr>id' = ''gpt-4o'', name = ''only fetched'', created = 2, deprecation = None, is_favorite = None\<rparr>]
        [\<lparr>id' = ''gpt-4'', name = ''static name'', created = 3, deprecation = None, is_favorite = None\<rparr>]
        [''gpt-4''] False True ByCreated))"
proof -
  let ?f1 = "\<lparr>id' = ''gpt-4'', name = ''fetched name'', created = 1, deprecation = None, is_favorite = None\<rparr>"
  let ?f2 = "\<lparr>id' = ''gpt-4o'', name = ''only fetched'', created = 2, deprecation = None, is_favorite = None\<rparr>"
  let ?s1 = "\<lparr>id' = ''gpt-4'', name = ''static name'', created = 3, deprecation = None, is_favorite = None\<rparr>"
  let ?all = "allModels example_Date (\<lambda>a b. 0) 0 [?f1, ?f2] [?s1] [''gpt-4''] False True ByCreated"
  note w = static_wins [of "[?f1, ?f2]" "[?s1]" example_Date "\<lambda>a b. 0" 0 "[''gpt-4'']" False True ByCreated]
  from w have a: "find (\<lambda>m. id' m = ''gpt-4'') (map snd (merge_models [?f1, ?f2] [?s1])) = Some ?s1"
    by simp
  from w have b: "find (\<lambda>m. id' m = ''gpt-4o'') (map snd (merge_models [?f1, ?f2] [?s1])) = Some ?f2"
    by simp
  from w have c: "distinct (map id' ?all)"
    by (simp only:)
  have member: "m \<in> set ?all \<longleftrightarrow> (\<exists>w. merged_entry [?f1, ?f2] [?s1] (id' m) = Some w
                   \<and> m = with_favorite [''gpt-4''] False w
                   \<and> (True \<or> shown example_Date 0 w))" for m
    using w by blast
  have d: "?s1\<lparr>is_favorite := Some True\<rparr> \<in> set ?all"
    unfolding member by (simp add: merged_entry_def with_favorite_def)
  have e: "?f2 \<in> set ?all"
    unfolding member by (simp add: merged_entry_def with_favorite_def)
  have f: "\<forall>m \<in> set ?all. name m \<noteq> ''fetched name''"
  proof
    fix m assume "m \<in> set ?all"
    then obtain w where w: "merged_entry [?f1, ?f2] [?s1] (id' m) = Some w"
      and m: "m = with_favorite [''gpt-4''] False w"
      unfolding member by blast
    from w have "w = ?s1 \<or> w = ?f2"
      by (auto simp: merged_entry_def split: if_splits)
    then have "name w = ''static name'' \<or> name w = ''only fetched''"
      by auto
    with m show "name m \<noteq> ''fetched name''"
      by (auto simp: with_favorite_def)
  qed
  have g: "''fetched name'' \<notin> set (map name ?all)"
  proof
    assume "''fetched name'' \<in> set (map name ?all)"
    then obtain x where "x \<in> set ?all" and "name x = ''fetched name''"
      by auto
    with f show False by auto
  qed
  from a b c d e g show ?thesis by simp
qed

text \<open>The example of the specification: the deprecated model is the newest, and comes last.\<close>

lemma pipeline_example:
  "allModels example_Date (\<lambda>a b. 0) 1700000000000 []
     [\<lparr>id' = ''A'', name = ''A'', created = 100, deprecation = None, is_favorite = None\<rparr>,
      \<lparr>id' = ''B'', name = ''B'', created = 200, deprecation = Some \<lparr>date = ''2020-01-01''\<rparr>,
        is_favorite = None\<rparr>]
     [] False True ByCreated
   = [\<lparr>id' = ''A'', name = ''A'', created = 100, deprecation = None, is_favorite = None\<rparr>,
      \<lparr>id' = ''B'', name = ''B'', created = 200, deprecation = Some \<lparr>date = ''2020-01-01''\<rparr>,
        is_favorite = None\<rparr>]"
  by (simp add: allModels_def sorted_models_def merge_models_def overlay_favorites_def
      stable_sort_def compare_after_def moved_to_end_def example_Date_def Let_def)

text \<open>
  C3 fails on the code.  A static model whose deprecation date does not parse is not moved
  behind the others (first list, where it keeps its sorted place before the older model),
  but with \<^verbatim>\<open>showDeprecated\<close> false it is dropped from the list (second list): the filter keeps
  a model when \<^verbatim>\<open>new Date(date) >= now\<close>, which is false for an invalid date.
\<close>

theorem unparseable_date_is_hidden:
  "allModels example_Date (\<lambda>a b. 0) 1700000000000 []
     [\<lparr>id' = ''A'', name = ''A'', created = 100, deprecation = None, is_favorite = None\<rparr>,
      \<lparr>id' = ''D'', name = ''D'', created = 200, deprecation = Some \<lparr>date = ''not-a-date''\<rparr>,
        is_favorite = None\<rparr>]
     [] False True ByCreated
   = [\<lparr>id' = ''D'', name = ''D'', created = 200, deprecation = Some \<lparr>date = ''not-a-date''\<rparr>,
        is_favorite = None\<rparr>,
      \<lparr>id' = ''A'', name = ''A'', created = 100, deprecation = None, is_favorite = None\<rparr>]
   \<and> allModels example_Date (\<lambda>a b. 0) 1700000000000 []
     [\<lparr>id' = ''A'', name = ''A'', created = 100, deprecation = None, is_favorite = None\<rparr>,
      \<lparr>id' = ''D'', name = ''D'', created = 200, deprecation = Some \<lparr>date = ''not-a-date''\<rparr>,
        is_favorite = None\<rparr>]
     [] False False ByCreated
   = [\<lparr>id' = ''A'', name = ''A'', created = 100, deprecation = None, is_favorite = None\<rparr>]"
  by (simp add: allModels_def sorted_models_def merge_models_def overlay_favorites_def
      stable_sort_def compare_after_def moved_to_end_def shown_def example_Date_def Let_def)

text \<open>Whatever the parser and the instant: a date that does not parse hides the model when
  deprecated models are hidden, and does not move it.\<close>

lemma unparseable_date:
  "deprecation m = Some d \<Longrightarrow> parseDate (date d) = None \<Longrightarrow>
     \<not> shown parseDate now m \<and> \<not> moved_to_end parseDate now m"
  by (simp add: shown_def moved_to_end_def)

end
